theory Spec2Isabelle
  imports Complex_Main "HOL-Library.AList" "HOL-Library.Char_ord" "HOL-Library.List_Lexorder"
begin

section \<open>The usage ledger of analytics.py\<close>

text \<open>
  The ledger keeps one analytics record inside the add-on's configuration object. Both are
  Python dictionaries read from JSON. A dictionary is modelled as an association list with
  one entry per key, in insertion order: \<open>AList.update\<close> overwrites an existing key in place
  and appends a new one at the end, as assignment to a Python dictionary does. The values
  are the JSON values the ledger itself stores: null, booleans, integers, strings and the
  nested dictionary of daily counts. Floating-point numbers and arrays never occur in a
  record the ledger writes; they are left out of the value type.
\<close>

datatype jval = JNull | JBool bool | JInt int | JStr string | JDict "(string \<times> jval) list"

type_synonym pydict = "(string \<times> jval) list"

datatype exn = AttributeError | TypeError | ValueError | OverflowError | URLError | HTTPError int
  | Timeout | OSError

text \<open>Python's truth value of an object, as \<open>not x\<close> and \<open>if x\<close> use it.\<close>

fun truthy :: "jval \<Rightarrow> bool" where
  "truthy JNull = False"
| "truthy (JBool b) = b"
| "truthy (JInt n) = (n \<noteq> 0)"
| "truthy (JStr s) = (s \<noteq> [])"
| "truthy (JDict d) = (d \<noteq> [])"

text \<open>\<open>d.get(k)\<close> and \<open>d.get(k, default)\<close>.\<close>

definition dict_get :: "pydict \<Rightarrow> string \<Rightarrow> jval" where
  "dict_get d k = (case map_of d k of None \<Rightarrow> JNull | Some v \<Rightarrow> v)"

definition dict_get_default :: "pydict \<Rightarrow> string \<Rightarrow> jval \<Rightarrow> jval" where
  "dict_get_default d k dflt = (case map_of d k of None \<Rightarrow> dflt | Some v \<Rightarrow> v)"

text \<open>\<open>d[k] = v\<close>.\<close>

definition dict_set :: "string \<Rightarrow> jval \<Rightarrow> pydict \<Rightarrow> pydict" where
  "dict_set k v d = AList.update k v d"

text \<open>\<open>x + 1\<close> on a stored value: an integer (a boolean counts as 0 or 1) or a TypeError.\<close>

fun py_add1 :: "jval \<Rightarrow> exn + jval" where
  "py_add1 (JInt n) = Inr (JInt (n + 1))"
| "py_add1 (JBool b) = Inr (JInt ((if b then 1 else 0) + 1))"
| "py_add1 _ = Inl TypeError"

subsection \<open>Dates and times\<close>

text \<open>
  A naive \<open>datetime\<close>, as \<open>datetime.now()\<close> returns it: its calendar fields.
\<close>

record datetime =
  year :: nat
  month :: nat
  day :: nat
  hour :: nat
  minute :: nat
  second :: nat
  microsecond :: nat

definition is_leap :: "nat \<Rightarrow> bool" where
  "is_leap y = (y mod 4 = 0 \<and> (y mod 100 \<noteq> 0 \<or> y mod 400 = 0))"

definition days_in_month :: "nat \<Rightarrow> nat \<Rightarrow> nat" where
  "days_in_month y m =
     (if m = 2 \<and> is_leap y then 29
      else [0, 31, 28, 31, 30, 31, 30, 31, 31, 30, 31, 30, 31] ! m)"

definition valid_date :: "nat \<Rightarrow> nat \<Rightarrow> nat \<Rightarrow> bool" where
  "valid_date y m d = (1 \<le> y \<and> y \<le> 9999 \<and> 1 \<le> m \<and> m \<le> 12 \<and> 1 \<le> d \<and> d \<le> days_in_month y m)"

definition valid_datetime :: "datetime \<Rightarrow> bool" where
  "valid_datetime t =
     (valid_date (year t) (month t) (day t) \<and> hour t < 24 \<and> minute t < 60 \<and> second t < 60
      \<and> microsecond t < 1000000)"

text \<open>Decimal rendering of a number, and zero filling to a width (\<open>%02d\<close>, \<open>%04d\<close>).\<close>

definition digit_char :: "nat \<Rightarrow> char" where
  "digit_char n = ''0123456789'' ! n"

fun str_nat :: "nat \<Rightarrow> string" where
  "str_nat n = (if n < 10 then [digit_char n] else str_nat (n div 10) @ [digit_char (n mod 10)])"

declare str_nat.simps [simp del]

definition str_int :: "int \<Rightarrow> string" where
  "str_int i = (if i < 0 then CHR ''-'' # str_nat (nat (- i)) else str_nat (nat i))"

definition zfill :: "nat \<Rightarrow> string \<Rightarrow> string" where
  "zfill w s = replicate (w - length s) CHR ''0'' @ s"

text \<open>A date in the spelling \<open>YYYY-MM-DD\<close>, every part zero filled.\<close>

definition iso_date :: "nat \<Rightarrow> nat \<Rightarrow> nat \<Rightarrow> string" where
  "iso_date y m d = zfill 4 (str_nat y) @ ''-'' @ zfill 2 (str_nat m) @ ''-'' @ zfill 2 (str_nat d)"

text \<open>
  \<open>strftime("%Y-%m-%d")\<close>. Python hands the format to the C library of the platform, and
  what \<open>%Y\<close> prints for a year below 1000 differs: glibc prints it without leading zeros,
  other libraries fill it to four digits. The rendering of the year is therefore the
  argument \<open>year_text\<close>; the two known ones are \<open>year_unpadded\<close> and \<open>year_padded\<close>.
\<close>

definition strftime_ymd :: "(nat \<Rightarrow> string) \<Rightarrow> datetime \<Rightarrow> string" where
  "strftime_ymd year_text t =
     year_text (year t) @ ''-'' @ zfill 2 (str_nat (month t)) @ ''-'' @ zfill 2 (str_nat (day t))"

definition year_unpadded :: "nat \<Rightarrow> string" where
  "year_unpadded y = str_nat y"

definition year_padded :: "nat \<Rightarrow> string" where
  "year_padded y = zfill 4 (str_nat y)"

text \<open>The date triple of a datetime (\<open>.date()\<close>).\<close>

definition date_of :: "datetime \<Rightarrow> nat \<times> nat \<times> nat" where
  "date_of t = (year t, month t, day t)"

text \<open>
  \<open>isoformat()\<close> of a naive datetime. It does its own formatting, with the year always
  zero filled; the fraction is printed only when it is not zero.
\<close>

definition isoformat :: "datetime \<Rightarrow> string" where
  "isoformat t =
     iso_date (year t) (month t) (day t) @ ''T'' @ zfill 2 (str_nat (hour t)) @ '':'' @ zfill 2 (str_nat (minute t))
       @ '':'' @ zfill 2 (str_nat (second t))
       @ (if microsecond t = 0 then [] else ''.'' @ zfill 6 (str_nat (microsecond t)))"

text \<open>
  Comparison of two dates, as Python compares \<open>date\<close> objects: year, then month, then day.
\<close>

definition date_less :: "nat \<times> nat \<times> nat \<Rightarrow> nat \<times> nat \<times> nat \<Rightarrow> bool" where
  "date_less a b =
     (case a of (y1, m1, d1) \<Rightarrow> case b of (y2, m2, d2) \<Rightarrow>
        y1 < y2 \<or> (y1 = y2 \<and> (m1 < m2 \<or> (m1 = m2 \<and> d1 < d2))))"

subsection \<open>Reading and writing the record\<close>

text \<open>
  The store is the add-on's configuration dictionary (\<open>getConfig(ADDON_NAME) or {}\<close>).
  \<open>get_analytics_data\<close> returns whatever sits under \<open>analytics\<close>, or an empty dictionary;
  \<open>save_analytics_data\<close> writes the record back under that key.
\<close>

definition get_analytics_data :: "pydict \<Rightarrow> jval" where
  "get_analytics_data config = dict_get_default config ''analytics'' (JDict [])"

definition save_analytics_data :: "pydict \<Rightarrow> pydict \<Rightarrow> pydict" where
  "save_analytics_data analytics config = dict_set ''analytics'' (JDict analytics) config"

text \<open>
  Every operation starts with a method call on the value it read; on anything but a
  dictionary that call raises.
\<close>

definition with_analytics :: "exn \<Rightarrow> pydict \<Rightarrow> (pydict \<Rightarrow> exn + 'a) \<Rightarrow> exn + 'a" where
  "with_analytics e config f = (case get_analytics_data config of JDict a \<Rightarrow> f a | _ \<Rightarrow> Inl e)"

subsection \<open>Locale detection\<close>

text \<open>
  What the host tells the add-on: \<open>sys.platform\<close>, and the three library calls of
  \<open>get_locale_info\<close>, each of which may raise.
\<close>

record environment =
  sys_platform :: string
  getdefaultlocale :: "exn + (string option \<times> string option)"
  platform_system :: "exn + string"
  tzname :: "exn + string option"

definition opt_str :: "string option \<Rightarrow> jval" where
  "opt_str x = (case x of None \<Rightarrow> JNull | Some s \<Rightarrow> JStr s)"

definition get_locale_info :: "environment \<Rightarrow> pydict" where
  "get_locale_info env =
     (case getdefaultlocale env of
        Inl _ \<Rightarrow> []
      | Inr (lang, enc) \<Rightarrow>
          (case platform_system env of
             Inl _ \<Rightarrow> []
           | Inr ps \<Rightarrow>
               (case tzname env of
                  Inl _ \<Rightarrow> []
                | Inr tz \<Rightarrow>
                    [(''locale'', opt_str lang), (''encoding'', opt_str enc),
                     (''platform'', JStr ps), (''timezone'', opt_str tz)])))"

subsection \<open>The tracking operations\<close>

definition set_items :: "(string \<times> jval) list \<Rightarrow> pydict \<Rightarrow> pydict" where
  "set_items items d = fold (\<lambda>(k, v). dict_set k v) items d"

definition init_fields :: "environment \<Rightarrow> datetime \<Rightarrow> (string \<times> jval) list" where
  "init_fields env now =
     (let locale_info = get_locale_info env in
      [(''first_install_date'', JStr (isoformat now)),
       (''platform'', JStr (sys_platform env)),
       (''locale'', dict_get locale_info ''locale''),
       (''timezone'', dict_get locale_info ''timezone''),
       (''total_uses'', JInt 0),
       (''daily_usage'', JDict []),
       (''last_used_date'', JNull),
       (''signup_method'', JNull),
       (''has_logged_in'', JBool False),
       (''auth_button_clicked'', JNull),
       (''onboarding_completed'', JBool False),
       (''tutorial_status'', JNull),
       (''tutorial_current_step'', JNull),
       (''quick_action_usage_count'', JInt 0),
       (''shortcut_usage_count'', JInt 0)])"

definition init_analytics :: "environment \<Rightarrow> datetime \<Rightarrow> pydict \<Rightarrow> exn + pydict" where
  "init_analytics env now config =
     with_analytics AttributeError config (\<lambda>analytics.
       if \<not> truthy (dict_get analytics ''first_install_date'')
       then Inr (save_analytics_data (set_items (init_fields env now) analytics) config)
       else Inr config)"

definition track_signup_click :: "string \<Rightarrow> datetime \<Rightarrow> pydict \<Rightarrow> exn + pydict" where
  "track_signup_click method now config =
     with_analytics AttributeError config (\<lambda>analytics.
       Inr (save_analytics_data
              (if \<not> truthy (dict_get analytics ''signup_method'')
               then dict_set ''signup_date'' (JStr (isoformat now))
                      (dict_set ''signup_method'' (JStr method) analytics)
               else analytics)
              config))"

definition track_auth_button_click :: "string \<Rightarrow> datetime \<Rightarrow> pydict \<Rightarrow> exn + pydict" where
  "track_auth_button_click button_type now config =
     with_analytics AttributeError config (\<lambda>analytics.
       if \<not> truthy (dict_get analytics ''auth_button_clicked'')
       then Inr (save_analytics_data
                   (dict_set ''auth_button_click_date'' (JStr (isoformat now))
                      (dict_set ''auth_button_clicked'' (JStr button_type) analytics))
                   config)
       else Inr config)"

definition track_login_detected :: "datetime \<Rightarrow> pydict \<Rightarrow> exn + pydict" where
  "track_login_detected now config =
     with_analytics AttributeError config (\<lambda>analytics.
       if \<not> truthy (dict_get analytics ''has_logged_in'')
       then Inr (save_analytics_data
                   (dict_set ''first_login_date'' (JStr (isoformat now))
                      (dict_set ''has_logged_in'' (JBool True) analytics))
                   config)
       else Inr config)"

definition track_onboarding_completed :: "pydict \<Rightarrow> exn + pydict" where
  "track_onboarding_completed config =
     with_analytics AttributeError config (\<lambda>analytics.
       if \<not> truthy (dict_get analytics ''onboarding_completed'')
       then Inr (save_analytics_data (dict_set ''onboarding_completed'' (JBool True) analytics) config)
       else Inr config)"

definition track_tutorial_status :: "string \<Rightarrow> pydict \<Rightarrow> exn + pydict" where
  "track_tutorial_status status config =
     with_analytics AttributeError config (\<lambda>analytics.
       let current = dict_get analytics ''tutorial_status'' in
       if current \<noteq> JStr ''completed''
       then Inr (save_analytics_data (dict_set ''tutorial_status'' (JStr status) analytics) config)
       else Inr config)"

definition track_tutorial_step :: "int \<Rightarrow> int \<Rightarrow> pydict \<Rightarrow> exn + pydict" where
  "track_tutorial_step current total_steps config =
     with_analytics TypeError config (\<lambda>analytics.
       Inr (save_analytics_data
              (dict_set ''tutorial_current_step'' (JStr (str_int current @ ''/'' @ str_int total_steps))
                 analytics)
              config))"

definition increment_counter :: "string \<Rightarrow> pydict \<Rightarrow> exn + pydict" where
  "increment_counter key config =
     with_analytics AttributeError config (\<lambda>analytics.
       case py_add1 (dict_get_default analytics key (JInt 0)) of
         Inl e \<Rightarrow> Inl e
       | Inr v \<Rightarrow> Inr (save_analytics_data (dict_set key v analytics) config))"

definition track_quick_action_used :: "pydict \<Rightarrow> exn + pydict" where
  "track_quick_action_used config = increment_counter ''quick_action_usage_count'' config"

definition track_shortcut_used :: "pydict \<Rightarrow> exn + pydict" where
  "track_shortcut_used config = increment_counter ''shortcut_usage_count'' config"

subsection \<open>Day numbers\<close>

text \<open>
  The proleptic Gregorian day number of a date (\<open>toordinal\<close>, 1 for 0001-01-01) and its
  inverse, as the \<open>datetime\<close> module computes them. Subtracting two datetimes and
  subtracting a \<open>timedelta\<close> go through them.
\<close>

definition days_before_year :: "nat \<Rightarrow> int" where
  "days_before_year y = (let p = int y - 1 in p * 365 + p div 4 - p div 100 + p div 400)"

definition DAYS_BEFORE_MONTH :: "int list" where
  "DAYS_BEFORE_MONTH = [- 1, 0, 31, 59, 90, 120, 151, 181, 212, 243, 273, 304, 334]"

definition DAYS_IN_MONTH :: "int list" where
  "DAYS_IN_MONTH = [- 1, 31, 28, 31, 30, 31, 30, 31, 31, 30, 31, 30, 31]"

definition days_before_month :: "nat \<Rightarrow> nat \<Rightarrow> int" where
  "days_before_month y m = DAYS_BEFORE_MONTH ! m + (if m > 2 \<and> is_leap y then 1 else 0)"

definition ymd2ord :: "nat \<Rightarrow> nat \<Rightarrow> nat \<Rightarrow> int" where
  "ymd2ord y m d = days_before_year y + days_before_month y m + int d"

definition toordinal :: "datetime \<Rightarrow> int" where
  "toordinal t = ymd2ord (year t) (month t) (day t)"

definition ord2ymd :: "int \<Rightarrow> nat \<times> nat \<times> nat" where
  "ord2ymd ordinal =
     (let n = ordinal - 1;
          n400 = n div 146097; r400 = n mod 146097;
          n100 = r400 div 36524; r100 = r400 mod 36524;
          n4 = r100 div 1461; r4 = r100 mod 1461;
          n1 = r4 div 365; r1 = r4 mod 365;
          y = n400 * 400 + 1 + n100 * 100 + n4 * 4 + n1
      in if n1 = 4 \<or> n100 = 4 then (nat (y - 1), 12, 31)
         else
           let leapyear = (n1 = 3 \<and> (n4 \<noteq> 24 \<or> n100 = 3));
               mo = nat ((r1 + 50) div 32);
               preceding = DAYS_BEFORE_MONTH ! mo + (if mo > 2 \<and> leapyear then 1 else 0)
           in if preceding > r1
              then let mo' = mo - 1;
                       preceding' = preceding - (DAYS_IN_MONTH ! mo' + (if mo' = 2 \<and> leapyear then 1 else 0))
                   in (nat y, mo', nat (r1 - preceding' + 1))
              else (nat y, mo, nat (r1 - preceding + 1)))"

definition MAXORDINAL :: int where
  "MAXORDINAL = 3652059"

text \<open>\<open>t - timedelta(days=k)\<close>: the date moves, the time of day stays; out of range raises.\<close>

definition minus_days :: "datetime \<Rightarrow> int \<Rightarrow> exn + datetime" where
  "minus_days t k =
     (let ordinal = toordinal t - k in
      if 0 < ordinal \<and> ordinal \<le> MAXORDINAL
      then (case ord2ymd ordinal of (y, m, d) \<Rightarrow> Inr (t\<lparr>year := y, month := m, day := d\<rparr>))
      else Inl OverflowError)"

subsection \<open>Usage tracking and pruning\<close>

definition cleanup_old_daily_data :: "(nat \<Rightarrow> string) \<Rightarrow> datetime \<Rightarrow> pydict \<Rightarrow> exn + pydict" where
  "cleanup_old_daily_data year_text now analytics =
     (case map_of analytics ''daily_usage'' of
        None \<Rightarrow> Inr analytics
      | Some v \<Rightarrow>
          (case minus_days now 90 of
             Inl e \<Rightarrow> Inl e
           | Inr cutoff_date \<Rightarrow>
               (let cutoff_str = strftime_ymd year_text cutoff_date in
                case v of
                  JDict daily_usage \<Rightarrow>
                    Inr (dict_set ''daily_usage''
                           (JDict (filter (\<lambda>(date, count). date \<ge> cutoff_str) daily_usage))
                           analytics)
                | _ \<Rightarrow> Inl AttributeError)))"

text \<open>
  \<open>track_usage\<close> reads the clock twice: once for today's key and once, inside the clean-up,
  for the cut-off. Both readings are arguments.
\<close>

definition track_usage :: "(nat \<Rightarrow> string) \<Rightarrow> datetime \<Rightarrow> datetime \<Rightarrow> pydict \<Rightarrow> exn + pydict" where
  "track_usage year_text now now_cleanup config =
     with_analytics AttributeError config (\<lambda>analytics.
       let today = strftime_ymd year_text now in
       case py_add1 (dict_get_default analytics ''total_uses'' (JInt 0)) of
         Inl e \<Rightarrow> Inl e
       | Inr uses \<Rightarrow>
           (let analytics1 = dict_set ''total_uses'' uses analytics in
            case dict_get_default analytics1 ''daily_usage'' (JDict []) of
              JDict daily_usage \<Rightarrow>
                (case py_add1 (dict_get_default daily_usage today (JInt 0)) of
                   Inl e \<Rightarrow> Inl e
                 | Inr c \<Rightarrow>
                     (let daily_usage1 = dict_set today c daily_usage;
                          analytics2 = dict_set ''daily_usage'' (JDict daily_usage1) analytics1;
                          analytics3 = dict_set ''last_used_date'' (JStr today) analytics2
                      in case cleanup_old_daily_data year_text now_cleanup analytics3 of
                           Inl e \<Rightarrow> Inl e
                         | Inr analytics4 \<Rightarrow> Inr (save_analytics_data analytics4 config)))
            | _ \<Rightarrow> Inl AttributeError))"

subsection \<open>The daily upload\<close>

text \<open>
  \<open>datetime.fromisoformat\<close> is a library function whose accepted spellings differ between
  Python versions. The operations take it as an argument \<open>fromisoformat\<close>; the parser
  below reads exactly what \<open>isoformat()\<close> writes for a naive datetime and is used wherever a
  concrete one is needed.
\<close>

definition digit_val :: "char \<Rightarrow> nat option" where
  "digit_val c = (let n = of_char c in if (48::nat) \<le> n \<and> n \<le> 57 then Some (n - 48) else None)"

fun parse_nat_acc :: "nat \<Rightarrow> string \<Rightarrow> nat option" where
  "parse_nat_acc acc [] = Some acc"
| "parse_nat_acc acc (c # cs) =
     (case digit_val c of None \<Rightarrow> None | Some d \<Rightarrow> parse_nat_acc (acc * 10 + d) cs)"

definition parse_nat :: "string \<Rightarrow> nat option" where
  "parse_nat s = (if s = [] then None else parse_nat_acc 0 s)"

definition substr :: "nat \<Rightarrow> nat \<Rightarrow> string \<Rightarrow> string" where
  "substr i j s = take (j - i) (drop i s)"

definition fromisoformat_canonical :: "string \<Rightarrow> exn + datetime" where
  "fromisoformat_canonical s =
     (if (length s = 19 \<or> length s = 26)
         \<and> s ! 4 = CHR ''-'' \<and> s ! 7 = CHR ''-'' \<and> s ! 10 = CHR ''T''
         \<and> s ! 13 = CHR '':'' \<and> s ! 16 = CHR '':'' \<and> (length s = 26 \<longrightarrow> s ! 19 = CHR ''.'')
      then
        (case (parse_nat (substr 0 4 s), parse_nat (substr 5 7 s), parse_nat (substr 8 10 s),
               parse_nat (substr 11 13 s), parse_nat (substr 14 16 s), parse_nat (substr 17 19 s),
               (if length s = 26 then parse_nat (substr 20 26 s) else Some 0)) of
           (Some y, Some mo, Some d, Some h, Some mi, Some sec, Some us) \<Rightarrow>
             (let t = \<lparr>year = y, month = mo, day = d, hour = h, minute = mi, second = sec,
                       microsecond = us\<rparr>
              in if valid_datetime t then Inr t else Inl ValueError)
         | _ \<Rightarrow> Inl ValueError)
      else Inl ValueError)"

definition parse_stored :: "(string \<Rightarrow> exn + datetime) \<Rightarrow> jval \<Rightarrow> exn + datetime" where
  "parse_stored fromisoformat v = (case v of JStr s \<Rightarrow> fromisoformat s | _ \<Rightarrow> Inl TypeError)"

definition should_send_analytics ::
  "(string \<Rightarrow> exn + datetime) \<Rightarrow> datetime \<Rightarrow> pydict \<Rightarrow> exn + bool" where
  "should_send_analytics fromisoformat now config =
     with_analytics AttributeError config (\<lambda>analytics.
       let last_sent = dict_get analytics ''last_analytics_sent'' in
       if \<not> truthy last_sent then Inr True
       else (case parse_stored fromisoformat last_sent of
               Inl _ \<Rightarrow> Inr True
             | Inr last_sent_dt \<Rightarrow> Inr (date_less (date_of last_sent_dt) (date_of now))))"

definition build_payload :: "pydict \<Rightarrow> pydict" where
  "build_payload analytics =
     [(''first_install_date'', dict_get analytics ''first_install_date''),
      (''platform'', dict_get analytics ''platform''),
      (''locale'', dict_get analytics ''locale''),
      (''timezone'', dict_get analytics ''timezone''),
      (''total_uses'', dict_get_default analytics ''total_uses'' (JInt 0)),
      (''has_logged_in'', dict_get_default analytics ''has_logged_in'' (JBool False)),
      (''signup_method'', dict_get analytics ''signup_method''),
      (''auth_button_clicked'', dict_get analytics ''auth_button_clicked''),
      (''last_used_date'', dict_get analytics ''last_used_date''),
      (''onboarding_completed'', dict_get_default analytics ''onboarding_completed'' (JBool False)),
      (''tutorial_status'', dict_get analytics ''tutorial_status''),
      (''tutorial_current_step'', dict_get analytics ''tutorial_current_step''),
      (''quick_action_usage_count'', dict_get_default analytics ''quick_action_usage_count'' (JInt 0)),
      (''shortcut_usage_count'', dict_get_default analytics ''shortcut_usage_count'' (JInt 0))]"

text \<open>
  What the library does with the one POST. \<open>request.Request\<close> may refuse the endpoint
  string (it raises \<open>ValueError\<close> for a string that is not a URL) before anything is
  sent: \<open>Refused\<close>. Otherwise \<open>urlopen\<close> is called, and either returns a response with a
  status or raises (\<open>URLError\<close>, \<open>HTTPError\<close>, a timeout, ...). A request is a call of
  \<open>urlopen\<close>: the URL and the JSON body.
\<close>

datatype http_outcome = Refused | Response int | Raised exn

type_synonym request = "string \<times> pydict"

text \<open>
  The last step of \<open>_send\<close> after a response with status 200: the record the thread read
  before the network call is stamped and written back whole.
\<close>

definition flush_write_back :: "datetime \<Rightarrow> pydict \<Rightarrow> pydict \<Rightarrow> pydict" where
  "flush_write_back now analytics config =
     save_analytics_data (dict_set ''last_analytics_sent'' (JStr (isoformat now)) analytics) config"

text \<open>
  The body of \<open>_send\<close> inside its \<open>try\<close>, with nothing else touching the store while it
  runs: the requests it issued, and either the store it leaves or the exception it raised.
\<close>

definition send_body :: "datetime \<Rightarrow> http_outcome \<Rightarrow> pydict \<Rightarrow> request list \<times> (exn + pydict)" where
  "send_body now outcome config =
     (let endpoint_url = dict_get config ''analytics_endpoint'' in
      if \<not> truthy endpoint_url then ([], Inr config)
      else
        (case get_analytics_data config of
           JDict analytics \<Rightarrow>
             (let payload = build_payload analytics in
              case endpoint_url of
                JStr u \<Rightarrow>
                  (case outcome of
                     Refused \<Rightarrow> ([], Inl ValueError)
                   | Response status \<Rightarrow>
                       if status = 200
                       then ([(u, payload)], Inr (flush_write_back now analytics config))
                       else ([(u, payload)], Inr config)
                   | Raised e \<Rightarrow> ([(u, payload)], Inl e))
              | _ \<Rightarrow> ([], Inl ValueError))
         | _ \<Rightarrow> ([], Inl AttributeError)))"

text \<open>
  \<open>send_analytics_background\<close>: \<open>_send\<close> with its \<open>except Exception: pass\<close>, for a thread
  that runs to completion before anything else touches the store; the result is the store
  and the requests issued.
\<close>

definition send_analytics_background ::
  "datetime \<Rightarrow> http_outcome \<Rightarrow> pydict \<Rightarrow> exn + (pydict \<times> request list)" where
  "send_analytics_background now outcome config =
     (case send_body now outcome config of
        (reqs, Inl _) \<Rightarrow> Inr (config, reqs)
      | (reqs, Inr config') \<Rightarrow> Inr (config', reqs))"

record flush_result =
  store :: pydict
  flushes_started :: nat
  requests :: "request list"

definition try_send_daily_analytics ::
  "(string \<Rightarrow> exn + datetime) \<Rightarrow> datetime \<Rightarrow> datetime \<Rightarrow> http_outcome \<Rightarrow> pydict
     \<Rightarrow> exn + flush_result" where
  "try_send_daily_analytics fromisoformat now now_send outcome config =
     (case should_send_analytics fromisoformat now config of
        Inl e \<Rightarrow> Inl e
      | Inr send \<Rightarrow>
          if send
          then (case send_analytics_background now_send outcome config of
                  Inl e \<Rightarrow> Inl e
                | Inr (config', reqs) \<Rightarrow>
                    Inr \<lparr>store = config', flushes_started = 1, requests = reqs\<rparr>)
          else Inr \<lparr>store = config, flushes_started = 0, requests = []\<rparr>)"

subsection \<open>Sequences of operations\<close>

text \<open>
  The operations of a sequence. \<open>Flush\<close> is a flush whose thread finishes before the next
  operation begins. A thread that is overtaken by other operations reads the record,
  waits for the network, and only then writes the record it read back: that late write is
  the operation \<open>FlushWriteBack\<close>, which carries the record read earlier.
\<close>

datatype ledger_op =
    Initialize environment datetime
  | RecordUsage "nat \<Rightarrow> string" datetime datetime
  | RecordSignupClick string datetime
  | RecordAuthButtonClick string datetime
  | RecordLoginDetected datetime
  | RecordOnboardingCompleted
  | SetTutorialStatus string
  | SetTutorialStep int int
  | IncrementQuickActionUsage
  | IncrementShortcutUsage
  | Flush datetime http_outcome
  | FlushWriteBack pydict datetime

fun exec :: "ledger_op \<Rightarrow> pydict \<Rightarrow> exn + pydict" where
  "exec (Initialize env now) config = init_analytics env now config"
| "exec (RecordUsage year_text now now_cleanup) config = track_usage year_text now now_cleanup config"
| "exec (RecordSignupClick method now) config = track_signup_click method now config"
| "exec (RecordAuthButtonClick button_type now) config = track_auth_button_click button_type now config"
| "exec (RecordLoginDetected now) config = track_login_detected now config"
| "exec RecordOnboardingCompleted config = track_onboarding_completed config"
| "exec (SetTutorialStatus status) config = track_tutorial_status status config"
| "exec (SetTutorialStep current total_steps) config = track_tutorial_step current total_steps config"
| "exec IncrementQuickActionUsage config = track_quick_action_used config"
| "exec IncrementShortcutUsage config = track_shortcut_used config"
| "exec (Flush now outcome) config =
     (case send_analytics_background now outcome config of
        Inl e \<Rightarrow> Inl e
      | Inr (config', _) \<Rightarrow> Inr config')"
| "exec (FlushWriteBack snapshot now) config = Inr (flush_write_back now snapshot config)"

fun is_write_back :: "ledger_op \<Rightarrow> bool" where
  "is_write_back (FlushWriteBack snapshot now) = True"
| "is_write_back _ = False"

text \<open>An operation that raises has written nothing: the store stays as it was.\<close>

definition step :: "ledger_op \<Rightarrow> pydict \<Rightarrow> pydict" where
  "step operation config = (case exec operation config of Inl _ \<Rightarrow> config | Inr config' \<Rightarrow> config')"

fun run :: "ledger_op list \<Rightarrow> pydict \<Rightarrow> pydict" where
  "run [] config = config"
| "run (operation # ops) config = run ops (step operation config)"

text \<open>The number a counter field stands for: a missing field counts as 0.\<close>

definition record_counter :: "string \<Rightarrow> pydict \<Rightarrow> int" where
  "record_counter key analytics =
     (case dict_get_default analytics key (JInt 0) of
        JInt n \<Rightarrow> n
      | JBool b \<Rightarrow> (if b then 1 else 0)
      | _ \<Rightarrow> 0)"

definition counter_value :: "string \<Rightarrow> pydict \<Rightarrow> int" where
  "counter_value key config =
     (case get_analytics_data config of JDict analytics \<Rightarrow> record_counter key analytics | _ \<Rightarrow> 0)"

text \<open>A field of the stored record, as \<open>get_analytics_data().get(key)\<close> reads it.\<close>

definition field :: "string \<Rightarrow> pydict \<Rightarrow> jval" where
  "field key config = (case get_analytics_data config of JDict analytics \<Rightarrow> dict_get analytics key | _ \<Rightarrow> JNull)"

subsection \<open>The record as the data model lists it\<close>

text \<open>
  The field names of the analytics record in the order of the data model's table
  (section 3 of the specification), for comparison with the keys of the upload.
\<close>

definition spec_record_fields :: "string list" where
  "spec_record_fields =
     [''first_install_date'', ''platform'', ''locale'', ''timezone'', ''total_uses'',
      ''daily_usage'', ''last_used_date'', ''signup_method'', ''auth_button_clicked'',
      ''has_logged_in'', ''onboarding_completed'', ''tutorial_status'',
      ''tutorial_current_step'', ''quick_action_usage_count'', ''shortcut_usage_count'',
      ''last_analytics_sent'']"

subsection \<open>Sample values\<close>

text \<open>A clock reading, one a day later, and a host environment, for concrete instances.\<close>

definition sample_now :: datetime where
  "sample_now = \<lparr>year = 2026, month = 11, day = 3, hour = 9, minute = 5, second = 0,
                  microsecond = 0\<rparr>"

definition sample_next_day :: datetime where
  "sample_next_day = \<lparr>year = 2026, month = 11, day = 4, hour = 8, minute = 30, second = 15,
                       microsecond = 250000\<rparr>"

definition sample_env :: environment where
  "sample_env = \<lparr>sys_platform = ''linux'',
                  getdefaultlocale = Inr (Some ''en_US'', Some ''UTF-8''),
                  platform_system = Inr ''Linux'',
                  tzname = Inr (Some ''UTC'')\<rparr>"

definition failing_env :: environment where
  "failing_env = \<lparr>sys_platform = ''win32'',
                   getdefaultlocale = Inl ValueError,
                   platform_system = Inr ''Windows'',
                   tzname = Inl OSError\<rparr>"

definition sample_config :: pydict where
  "sample_config =
     [(''analytics_endpoint'', JStr ''https://collector.example/ingest''),
      (''analytics'',
       JDict [(''first_install_date'', JStr ''2026-10-24T09:05:00''),
              (''total_uses'', JInt 7),
              (''daily_usage'', JDict [(''2026-10-24'', JInt 4), (''2026-11-02'', JInt 3)]),
              (''last_used_date'', JStr ''2026-11-02'')])]"

definition sample_usage_config :: pydict where
  "sample_usage_config =
     [(''analytics'',
       JDict [(''total_uses'', JInt 7),
              (''daily_usage'', JDict [(''2026-08-04'', JInt 3), (''2026-08-05'', JInt 4)])])]"

section \<open>Properties\<close>

subsection \<open>Dictionaries\<close>

lemma dict_get_dict_set: "dict_get (dict_set k v d) k' = (if k' = k then v else dict_get d k')"
  by (simp add: dict_get_def dict_set_def update_conv')

lemma dict_set_same: "map_of d k = Some v \<Longrightarrow> dict_set k v d = d"
  by (simp add: dict_set_def update_triv)

lemma save_unchanged:
  "get_analytics_data config = JDict a \<Longrightarrow> map_of config ''analytics'' \<noteq> None \<Longrightarrow>
   save_analytics_data a config = config"
  by (auto simp: get_analytics_data_def dict_get_default_def save_analytics_data_def
      intro: dict_set_same split: option.splits)

lemma get_saved: "get_analytics_data (save_analytics_data a config) = JDict a"
  by (simp add: get_analytics_data_def save_analytics_data_def dict_get_default_def dict_set_def
      update_conv')

lemma with_analytics_dict:
  "get_analytics_data config = JDict a \<Longrightarrow> with_analytics e config f = f a"
  by (simp add: with_analytics_def)

lemma field_dict: "get_analytics_data config = JDict a \<Longrightarrow> field k config = dict_get a k"
  by (simp add: field_def)

lemma field_saved: "field k (save_analytics_data a config) = dict_get a k"
  by (simp add: field_def get_saved)

lemma map_of_saved:
  "k \<noteq> ''analytics'' \<Longrightarrow> map_of (save_analytics_data a config) k = map_of config k"
  by (simp add: save_analytics_data_def dict_set_def update_conv')

lemma analytics_present:
  "get_analytics_data config = JDict a \<Longrightarrow> a \<noteq> [] \<Longrightarrow> map_of config ''analytics'' \<noteq> None"
  by (auto simp: get_analytics_data_def dict_get_default_def split: option.splits)

lemma dict_get_nonnull: "dict_get a k \<noteq> JNull \<Longrightarrow> a \<noteq> []"
  by (auto simp: dict_get_def)

lemma gad1: "get_analytics_data [(''analytics'', JDict x)] = JDict x"
  by (simp add: get_analytics_data_def dict_get_default_def)

subsection \<open>Tutorial status\<close>

text \<open>
  Claim C6. \<open>track_tutorial_status\<close> leaves the store as it is when the stored status is
  \<open>completed\<close>; in every other state it overwrites the status with the given value and
  touches nothing else, so \<open>skip\<close> and \<open>skipped_midway\<close> replace each other freely. After
  \<open>completed\<close> a following \<open>skip\<close> leaves \<open>completed\<close> in place.
\<close>

theorem track_tutorial_status_sticky:
  assumes "get_analytics_data config = JDict a"
  shows "(field ''tutorial_status'' config = JStr ''completed'' \<longrightarrow>
            track_tutorial_status status config = Inr config)
       \<and> (field ''tutorial_status'' config \<noteq> JStr ''completed'' \<longrightarrow>
            (\<exists>config'. track_tutorial_status status config = Inr config'
               \<and> field ''tutorial_status'' config' = JStr status
               \<and> (\<forall>k. k \<noteq> ''tutorial_status'' \<longrightarrow> field k config' = field k config)
               \<and> (\<forall>k. k \<noteq> ''analytics'' \<longrightarrow> map_of config' k = map_of config k)))
       \<and> (\<exists>c1 c2. track_tutorial_status ''completed'' config = Inr c1
               \<and> track_tutorial_status ''skip'' c1 = Inr c2
               \<and> field ''tutorial_status'' c2 = JStr ''completed'')"
proof (intro conjI impI)
  assume "field ''tutorial_status'' config = JStr ''completed''"
  with assms show "track_tutorial_status status config = Inr config"
    by (simp add: track_tutorial_status_def with_analytics_dict field_dict)
next
  assume "field ''tutorial_status'' config \<noteq> JStr ''completed''"
  with assms have "track_tutorial_status status config
      = Inr (save_analytics_data (dict_set ''tutorial_status'' (JStr status) a) config)"
    by (simp add: track_tutorial_status_def with_analytics_dict field_dict)
  with assms show "\<exists>config'. track_tutorial_status status config = Inr config'
               \<and> field ''tutorial_status'' config' = JStr status
               \<and> (\<forall>k. k \<noteq> ''tutorial_status'' \<longrightarrow> field k config' = field k config)
               \<and> (\<forall>k. k \<noteq> ''analytics'' \<longrightarrow> map_of config' k = map_of config k)"
    by (simp add: field_saved dict_get_dict_set field_dict map_of_saved)
next
  have "\<exists>c1. track_tutorial_status ''completed'' config = Inr c1
           \<and> field ''tutorial_status'' c1 = JStr ''completed''
           \<and> (\<exists>a1. get_analytics_data c1 = JDict a1)"
    using assms
    by (auto simp: track_tutorial_status_def with_analytics_dict field_dict field_saved
        dict_get_dict_set get_saved Let_def)
  then obtain c1 a1 where c1: "track_tutorial_status ''completed'' config = Inr c1"
    "field ''tutorial_status'' c1 = JStr ''completed''" "get_analytics_data c1 = JDict a1"
    by blast
  then have "track_tutorial_status ''skip'' c1 = Inr c1"
    by (simp add: track_tutorial_status_def with_analytics_dict field_dict)
  with c1 show "\<exists>c1 c2. track_tutorial_status ''completed'' config = Inr c1
               \<and> track_tutorial_status ''skip'' c1 = Inr c2
               \<and> field ''tutorial_status'' c2 = JStr ''completed''"
    by blast
qed


theorem track_tutorial_status_sticky_witness:
  "track_tutorial_status ''skip'' [(''analytics'', JDict [(''tutorial_status'', JStr ''completed'')])]
     = Inr [(''analytics'', JDict [(''tutorial_status'', JStr ''completed'')])]
   \<and> (\<exists>config'. track_tutorial_status ''skipped_midway''
                    [(''analytics'', JDict [(''tutorial_status'', JStr ''skip'')])] = Inr config'
         \<and> field ''tutorial_status'' config' = JStr ''skipped_midway'')"
proof -
  let ?c = "[(''analytics'', JDict [(''tutorial_status'', JStr ''completed'')])]"
  let ?d = "[(''analytics'', JDict [(''tutorial_status'', JStr ''skip'')])]"
  have c: "get_analytics_data ?c = JDict [(''tutorial_status'', JStr ''completed'')]"
    and d: "get_analytics_data ?d = JDict [(''tutorial_status'', JStr ''skip'')]"
    by (simp_all add: gad1)
  have fc: "field ''tutorial_status'' ?c = JStr ''completed''"
    and fd: "field ''tutorial_status'' ?d \<noteq> JStr ''completed''"
    by (simp_all add: field_def gad1 dict_get_def)
  from track_tutorial_status_sticky [OF c, of "''skip''"] fc
  have "track_tutorial_status ''skip'' ?c = Inr ?c" by blast
  moreover from track_tutorial_status_sticky [OF d, of "''skipped_midway''"] fd
  have "\<exists>config'. track_tutorial_status ''skipped_midway'' ?d = Inr config'
         \<and> field ''tutorial_status'' config' = JStr ''skipped_midway''" by blast
  ultimately show ?thesis by blast
qed

lemma isoformat_nonempty: "isoformat t \<noteq> []"
  by (simp add: isoformat_def)

subsection \<open>Signup attribution\<close>

text \<open>
  Claim C7. \<open>track_signup_click\<close> stores the method and a signup timestamp when no method is
  stored yet (the field is missing or null) and changes nothing else; when a method is
  already stored the store stays exactly as it is. Starting without a method, the calls
  with \<open>organic\<close> and then \<open>sidebar_button\<close> leave \<open>organic\<close>.
\<close>

theorem track_signup_click_first_wins:
  assumes "get_analytics_data config = JDict a"
  shows "(field ''signup_method'' config = JNull \<longrightarrow>
            (\<exists>config'. track_signup_click method now config = Inr config'
               \<and> field ''signup_method'' config' = JStr method
               \<and> field ''signup_date'' config' = JStr (isoformat now)
               \<and> (\<forall>k. k \<noteq> ''signup_method'' \<and> k \<noteq> ''signup_date'' \<longrightarrow> field k config' = field k config)
               \<and> (\<forall>k. k \<noteq> ''analytics'' \<longrightarrow> map_of config' k = map_of config k)))
       \<and> (\<forall>m. field ''signup_method'' config = JStr m \<and> m \<noteq> [] \<longrightarrow>
            track_signup_click method now config = Inr config)
       \<and> (field ''signup_method'' config = JNull \<longrightarrow>
            (\<exists>c1 c2. track_signup_click ''organic'' now config = Inr c1
               \<and> track_signup_click ''sidebar_button'' now2 c1 = Inr c2
               \<and> field ''signup_method'' c2 = JStr ''organic''))"
proof (intro conjI impI allI)
  assume unset: "field ''signup_method'' config = JNull"
  with assms have "track_signup_click method now config
      = Inr (save_analytics_data (dict_set ''signup_date'' (JStr (isoformat now))
                      (dict_set ''signup_method'' (JStr method) a)) config)"
    by (simp add: track_signup_click_def with_analytics_dict field_dict)
  with assms show "\<exists>config'. track_signup_click method now config = Inr config'
               \<and> field ''signup_method'' config' = JStr method
               \<and> field ''signup_date'' config' = JStr (isoformat now)
               \<and> (\<forall>k. k \<noteq> ''signup_method'' \<and> k \<noteq> ''signup_date'' \<longrightarrow> field k config' = field k config)
               \<and> (\<forall>k. k \<noteq> ''analytics'' \<longrightarrow> map_of config' k = map_of config k)"
    by (simp add: field_saved dict_get_dict_set field_dict map_of_saved)
next
  fix m assume set: "field ''signup_method'' config = JStr m \<and> m \<noteq> []"
  with assms have "dict_get a ''signup_method'' \<noteq> JNull" by (simp add: field_dict)
  then have "map_of config ''analytics'' \<noteq> None"
    using assms analytics_present dict_get_nonnull by blast
  with assms set show "track_signup_click method now config = Inr config"
    by (simp add: track_signup_click_def with_analytics_dict field_dict save_unchanged)
next
  assume unset: "field ''signup_method'' config = JNull"
  let ?a1 = "dict_set ''signup_date'' (JStr (isoformat now)) (dict_set ''signup_method'' (JStr ''organic'') a)"
  let ?c1 = "save_analytics_data ?a1 config"
  from assms unset have 1: "track_signup_click ''organic'' now config = Inr ?c1"
    by (simp add: track_signup_click_def with_analytics_dict field_dict)
  have g: "get_analytics_data ?c1 = JDict ?a1" by (rule get_saved)
  have p: "map_of ?c1 ''analytics'' \<noteq> None"
    by (simp add: save_analytics_data_def dict_set_def update_conv')
  have 2: "track_signup_click ''sidebar_button'' now2 ?c1 = Inr ?c1"
    by (simp add: track_signup_click_def with_analytics_dict [OF g] dict_get_dict_set
        save_unchanged [OF g p])
  have "field ''signup_method'' ?c1 = JStr ''organic''"
    by (simp add: field_saved dict_get_dict_set)
  with 1 2 show "\<exists>c1 c2. track_signup_click ''organic'' now config = Inr c1
               \<and> track_signup_click ''sidebar_button'' now2 c1 = Inr c2
               \<and> field ''signup_method'' c2 = JStr ''organic''"
    by blast
qed

theorem track_signup_click_first_wins_witness:
  "(\<exists>c1 c2. track_signup_click ''organic'' sample_now [] = Inr c1
        \<and> track_signup_click ''sidebar_button'' sample_next_day c1 = Inr c2
        \<and> field ''signup_method'' c2 = JStr ''organic'')
   \<and> track_signup_click ''sidebar_button'' sample_now
        [(''analytics'', JDict [(''signup_method'', JStr ''organic'')])]
      = Inr [(''analytics'', JDict [(''signup_method'', JStr ''organic'')])]"
proof -
  let ?d = "[(''analytics'', JDict [(''signup_method'', JStr ''organic'')])]"
  have e: "get_analytics_data [] = JDict []"
    by (simp add: get_analytics_data_def dict_get_default_def)
  have fe: "field ''signup_method'' [] = JNull"
    by (simp add: field_def e dict_get_def)
  have d: "get_analytics_data ?d = JDict [(''signup_method'', JStr ''organic'')]"
    by (simp add: gad1)
  have fd: "field ''signup_method'' ?d = JStr ''organic'' \<and> ''organic'' \<noteq> []"
    by (simp add: field_def gad1 dict_get_def)
  from track_signup_click_first_wins [OF e, of "''organic''" sample_now sample_next_day] fe
  have "\<exists>c1 c2. track_signup_click ''organic'' sample_now [] = Inr c1
        \<and> track_signup_click ''sidebar_button'' sample_next_day c1 = Inr c2
        \<and> field ''signup_method'' c2 = JStr ''organic''" by blast
  moreover from track_signup_click_first_wins [OF d, of "''sidebar_button''" sample_now sample_next_day] fd
  have "track_signup_click ''sidebar_button'' sample_now ?d = Inr ?d" by blast
  ultimately show ?thesis by blast
qed

subsection \<open>First-run initialisation\<close>

lemma init_fields_get:
  "dict_get (set_items (init_fields env now) a) ''first_install_date'' = JStr (isoformat now)"
  "dict_get (set_items (init_fields env now) a) ''platform'' = JStr (sys_platform env)"
  "dict_get (set_items (init_fields env now) a) ''locale'' = dict_get (get_locale_info env) ''locale''"
  "dict_get (set_items (init_fields env now) a) ''timezone'' = dict_get (get_locale_info env) ''timezone''"
  "dict_get (set_items (init_fields env now) a) ''total_uses'' = JInt 0"
  "dict_get (set_items (init_fields env now) a) ''daily_usage'' = JDict []"
  "dict_get (set_items (init_fields env now) a) ''last_used_date'' = JNull"
  "dict_get (set_items (init_fields env now) a) ''signup_method'' = JNull"
  "dict_get (set_items (init_fields env now) a) ''has_logged_in'' = JBool False"
  "dict_get (set_items (init_fields env now) a) ''auth_button_clicked'' = JNull"
  "dict_get (set_items (init_fields env now) a) ''onboarding_completed'' = JBool False"
  "dict_get (set_items (init_fields env now) a) ''tutorial_status'' = JNull"
  "dict_get (set_items (init_fields env now) a) ''tutorial_current_step'' = JNull"
  "dict_get (set_items (init_fields env now) a) ''quick_action_usage_count'' = JInt 0"
  "dict_get (set_items (init_fields env now) a) ''shortcut_usage_count'' = JInt 0"
  by (simp_all add: set_items_def init_fields_def Let_def dict_get_dict_set)

lemma get_locale_info_cases:
  "getdefaultlocale env = Inl e \<Longrightarrow> get_locale_info env = []"
  "platform_system env = Inl e \<Longrightarrow> get_locale_info env = []"
  "tzname env = Inl e \<Longrightarrow> get_locale_info env = []"
  "getdefaultlocale env = Inr (lang, enc) \<Longrightarrow> platform_system env = Inr ps \<Longrightarrow> tzname env = Inr tz \<Longrightarrow>
     get_locale_info env = [(''locale'', opt_str lang), (''encoding'', opt_str enc),
                     (''platform'', JStr ps), (''timezone'', opt_str tz)]"
  by (simp_all add: get_locale_info_def split: sum.splits prod.splits)

lemma init_analytics_installed:
  "get_analytics_data config = JDict a \<Longrightarrow> truthy (dict_get a ''first_install_date'') \<Longrightarrow>
   init_analytics env now config = Inr config"
  by (simp add: init_analytics_def with_analytics_dict)

lemma init_analytics_fresh:
  "get_analytics_data config = JDict a \<Longrightarrow> \<not> truthy (dict_get a ''first_install_date'') \<Longrightarrow>
   init_analytics env now config = Inr (save_analytics_data (set_items (init_fields env now) a) config)"
  by (simp add: init_analytics_def with_analytics_dict)

text \<open>
  Claim C8. \<open>init_analytics\<close> changes nothing when an install date is stored, and a second
  call after any first call returns the store of the first call unchanged, whatever the
  clock and the host say by then. On a record without an install date it stores the
  timestamp, the platform, the detected locale and time zone, and the zero or empty
  default of every counter and flag. When one of the detection calls raises, the locale
  and the time zone are stored as null and the call still succeeds.
\<close>

theorem init_analytics_idempotent:
  assumes "get_analytics_data config = JDict a"
  shows "(\<forall>s. field ''first_install_date'' config = JStr s \<and> s \<noteq> [] \<longrightarrow>
            init_analytics env now config = Inr config)
       \<and> (\<exists>c1. init_analytics env now config = Inr c1 \<and> init_analytics env2 now2 c1 = Inr c1)
       \<and> (field ''first_install_date'' config = JNull \<longrightarrow>
            (\<exists>c1. init_analytics env now config = Inr c1
               \<and> field ''first_install_date'' c1 = JStr (isoformat now)
               \<and> field ''platform'' c1 = JStr (sys_platform env)
               \<and> field ''locale'' c1 = dict_get (get_locale_info env) ''locale''
               \<and> field ''timezone'' c1 = dict_get (get_locale_info env) ''timezone''
               \<and> field ''total_uses'' c1 = JInt 0
               \<and> field ''daily_usage'' c1 = JDict []
               \<and> field ''last_used_date'' c1 = JNull
               \<and> field ''signup_method'' c1 = JNull
               \<and> field ''has_logged_in'' c1 = JBool False
               \<and> field ''auth_button_clicked'' c1 = JNull
               \<and> field ''onboarding_completed'' c1 = JBool False
               \<and> field ''tutorial_status'' c1 = JNull
               \<and> field ''tutorial_current_step'' c1 = JNull
               \<and> field ''quick_action_usage_count'' c1 = JInt 0
               \<and> field ''shortcut_usage_count'' c1 = JInt 0))
       \<and> (\<forall>lang enc ps tz. getdefaultlocale env = Inr (lang, enc) \<and> platform_system env = Inr ps
              \<and> tzname env = Inr tz \<longrightarrow>
            dict_get (get_locale_info env) ''locale'' = opt_str lang
            \<and> dict_get (get_locale_info env) ''timezone'' = opt_str tz)
       \<and> ((\<exists>e. getdefaultlocale env = Inl e) \<or> (\<exists>e. platform_system env = Inl e)
             \<or> (\<exists>e. tzname env = Inl e) \<longrightarrow>
            dict_get (get_locale_info env) ''locale'' = JNull
            \<and> dict_get (get_locale_info env) ''timezone'' = JNull)"
proof (intro conjI impI allI)
  fix s assume "field ''first_install_date'' config = JStr s \<and> s \<noteq> []"
  with assms show "init_analytics env now config = Inr config"
    by (simp add: init_analytics_installed field_dict)
next
  show "\<exists>c1. init_analytics env now config = Inr c1 \<and> init_analytics env2 now2 c1 = Inr c1"
  proof (cases "truthy (dict_get a ''first_install_date'')")
    case True
    with assms have "init_analytics env now config = Inr config"
      and "init_analytics env2 now2 config = Inr config"
      by (simp_all add: init_analytics_installed)
    then show ?thesis by simp
  next
    case False
    let ?a1 = "set_items (init_fields env now) a"
    let ?c1 = "save_analytics_data ?a1 config"
    from assms False have 1: "init_analytics env now config = Inr ?c1"
      by (rule init_analytics_fresh)
    have "truthy (dict_get ?a1 ''first_install_date'')"
      by (simp add: init_fields_get isoformat_nonempty)
    then have "init_analytics env2 now2 ?c1 = Inr ?c1"
      by (rule init_analytics_installed [OF get_saved])
    with 1 show ?thesis by simp
  qed
next
  assume "field ''first_install_date'' config = JNull"
  with assms have "init_analytics env now config
      = Inr (save_analytics_data (set_items (init_fields env now) a) config)"
    by (simp add: init_analytics_fresh field_dict)
  then show "\<exists>c1. init_analytics env now config = Inr c1
               \<and> field ''first_install_date'' c1 = JStr (isoformat now)
               \<and> field ''platform'' c1 = JStr (sys_platform env)
               \<and> field ''locale'' c1 = dict_get (get_locale_info env) ''locale''
               \<and> field ''timezone'' c1 = dict_get (get_locale_info env) ''timezone''
               \<and> field ''total_uses'' c1 = JInt 0
               \<and> field ''daily_usage'' c1 = JDict []
               \<and> field ''last_used_date'' c1 = JNull
               \<and> field ''signup_method'' c1 = JNull
               \<and> field ''has_logged_in'' c1 = JBool False
               \<and> field ''auth_button_clicked'' c1 = JNull
               \<and> field ''onboarding_completed'' c1 = JBool False
               \<and> field ''tutorial_status'' c1 = JNull
               \<and> field ''tutorial_current_step'' c1 = JNull
               \<and> field ''quick_action_usage_count'' c1 = JInt 0
               \<and> field ''shortcut_usage_count'' c1 = JInt 0"
    by (simp add: field_saved init_fields_get)
next
  fix lang enc ps tz
  assume "getdefaultlocale env = Inr (lang, enc) \<and> platform_system env = Inr ps \<and> tzname env = Inr tz"
  then have "get_locale_info env = [(''locale'', opt_str lang), (''encoding'', opt_str enc),
                     (''platform'', JStr ps), (''timezone'', opt_str tz)]"
    by (simp add: get_locale_info_cases)
  then show "dict_get (get_locale_info env) ''locale'' = opt_str lang"
    and "dict_get (get_locale_info env) ''timezone'' = opt_str tz"
    by (simp_all add: dict_get_def)
next
  assume "(\<exists>e. getdefaultlocale env = Inl e) \<or> (\<exists>e. platform_system env = Inl e)
             \<or> (\<exists>e. tzname env = Inl e)"
  then have "get_locale_info env = []"
    by (auto simp: get_locale_info_cases)
  then show "dict_get (get_locale_info env) ''locale'' = JNull"
    and "dict_get (get_locale_info env) ''timezone'' = JNull"
    by (simp_all add: dict_get_def)
qed

theorem init_analytics_idempotent_witness:
  "(\<exists>c1. init_analytics failing_env sample_now [] = Inr c1
       \<and> init_analytics sample_env sample_next_day c1 = Inr c1
       \<and> field ''first_install_date'' c1 = JStr (isoformat sample_now)
       \<and> field ''total_uses'' c1 = JInt 0
       \<and> field ''locale'' c1 = JNull \<and> field ''timezone'' c1 = JNull)
   \<and> (\<exists>c1. init_analytics sample_env sample_now [] = Inr c1
       \<and> field ''locale'' c1 = JStr ''en_US'' \<and> field ''timezone'' c1 = JStr ''UTC'')
   \<and> init_analytics sample_env sample_next_day
        [(''analytics'', JDict [(''first_install_date'', JStr ''2026-11-03T09:05:00'')])]
      = Inr [(''analytics'', JDict [(''first_install_date'', JStr ''2026-11-03T09:05:00'')])]"
proof -
  let ?d = "[(''analytics'', JDict [(''first_install_date'', JStr ''2026-11-03T09:05:00'')])]"
  have e: "get_analytics_data [] = JDict []"
    by (simp add: get_analytics_data_def dict_get_default_def)
  have fe: "field ''first_install_date'' [] = JNull"
    by (simp add: field_def e dict_get_def)
  have d: "get_analytics_data ?d = JDict [(''first_install_date'', JStr ''2026-11-03T09:05:00'')]"
    by (simp add: gad1)
  have fd: "field ''first_install_date'' ?d = JStr ''2026-11-03T09:05:00'' \<and> ''2026-11-03T09:05:00'' \<noteq> []"
    by (simp add: field_def gad1 dict_get_def)
  have fail: "(\<exists>e. getdefaultlocale failing_env = Inl e) \<or> (\<exists>e. platform_system failing_env = Inl e)
             \<or> (\<exists>e. tzname failing_env = Inl e)"
    by (simp add: failing_env_def)
  have ok: "getdefaultlocale sample_env = Inr (Some ''en_US'', Some ''UTF-8'')
      \<and> platform_system sample_env = Inr ''Linux'' \<and> tzname sample_env = Inr (Some ''UTC'')"
    by (simp add: sample_env_def)
  note A = init_analytics_idempotent [OF e, of failing_env sample_now sample_env sample_next_day]
  note B = init_analytics_idempotent [OF e, of sample_env sample_now sample_env sample_next_day]
  note C = init_analytics_idempotent [OF d, of sample_env sample_next_day sample_env sample_next_day]
  from A fe fail obtain c1 where "init_analytics failing_env sample_now [] = Inr c1"
    "field ''first_install_date'' c1 = JStr (isoformat sample_now)"
    "field ''total_uses'' c1 = JInt 0" "field ''locale'' c1 = JNull" "field ''timezone'' c1 = JNull"
    by auto
  moreover from A this(1) have "init_analytics sample_env sample_next_day c1 = Inr c1"
    by auto
  moreover from B fe ok have "\<exists>c1. init_analytics sample_env sample_now [] = Inr c1
       \<and> field ''locale'' c1 = JStr ''en_US'' \<and> field ''timezone'' c1 = JStr ''UTC''"
    by (auto simp: opt_str_def)
  moreover from C fd have "init_analytics sample_env sample_next_day ?d = Inr ?d"
    by blast
  ultimately show ?thesis by blast
qed

subsection \<open>The daily check\<close>

text \<open>
  Claim C10. When a value is stored under \<open>last_analytics_sent\<close> and it cannot be parsed
  as a timestamp (the parser raises, or the value is not a string at all),
  \<open>should_send_analytics\<close> returns true and raises nothing.
\<close>

theorem should_send_unparseable:
  assumes "get_analytics_data config = JDict a"
    and "map_of a ''last_analytics_sent'' = Some v"
    and "parse_stored fromisoformat v = Inl e"
  shows "should_send_analytics fromisoformat now config = Inr True"
  using assms
  by (simp add: should_send_analytics_def with_analytics_dict dict_get_def Let_def)

lemma fromisoformat_canonical_short:
  "length s \<noteq> 19 \<Longrightarrow> length s \<noteq> 26 \<Longrightarrow> fromisoformat_canonical s = Inl ValueError"
  by (simp add: fromisoformat_canonical_def)

theorem should_send_unparseable_witness:
  "should_send_analytics fromisoformat_canonical sample_now
     [(''analytics'', JDict [(''last_analytics_sent'', JStr ''yesterday'')])] = Inr True
   \<and> should_send_analytics fromisoformat_canonical sample_now
     [(''analytics'', JDict [(''last_analytics_sent'', JInt 20261103)])] = Inr True"
proof -
  have 1: "parse_stored fromisoformat_canonical (JStr ''yesterday'') = Inl ValueError"
    by (simp add: parse_stored_def fromisoformat_canonical_short)
  have 2: "parse_stored fromisoformat_canonical (JInt 20261103) = Inl TypeError"
    by (simp add: parse_stored_def)
  show ?thesis
    using should_send_unparseable [OF gad1 _ 1, of "[(''last_analytics_sent'', JStr ''yesterday'')]" sample_now]
      should_send_unparseable [OF gad1 _ 2, of "[(''last_analytics_sent'', JInt 20261103)]" sample_now]
    by simp
qed

subsection \<open>The upload\<close>


lemma send_body_requests:
  "fst (send_body now outcome config) =
     (case (dict_get config ''analytics_endpoint'', get_analytics_data config) of
        (JStr u, JDict a) \<Rightarrow> if u \<noteq> [] \<and> outcome \<noteq> Refused then [(u, build_payload a)] else []
      | _ \<Rightarrow> [])"
  by (auto simp: send_body_def Let_def split: jval.splits http_outcome.splits)

lemma flush_write_back_fields:
  "field k (flush_write_back now a config)
     = (if k = ''last_analytics_sent'' then JStr (isoformat now) else dict_get a k)"
  "k' \<noteq> ''analytics'' \<Longrightarrow> map_of (flush_write_back now a config) k' = map_of config k'"
  "get_analytics_data (flush_write_back now a config)
     = JDict (dict_set ''last_analytics_sent'' (JStr (isoformat now)) a)"
  by (simp_all add: flush_write_back_def field_saved dict_get_dict_set map_of_saved get_saved)

text \<open>
  Claim C9, as amended. The JSON body of the upload is \<open>build_payload\<close> of the record read
  at that moment, and its keys are the same fourteen for every record: the fields of the
  data model without \<open>daily_usage\<close> and \<open>last_analytics_sent\<close>, and nothing else.
\<close>

theorem payload_fixed_shape:
  "map fst (build_payload analytics) =
     [''first_install_date'', ''platform'', ''locale'', ''timezone'', ''total_uses'',
      ''has_logged_in'', ''signup_method'', ''auth_button_clicked'', ''last_used_date'',
      ''onboarding_completed'', ''tutorial_status'', ''tutorial_current_step'',
      ''quick_action_usage_count'', ''shortcut_usage_count'']
   \<and> set (map fst (build_payload analytics))
       = set spec_record_fields - {''daily_usage'', ''last_analytics_sent''}
   \<and> (\<forall>r \<in> set (fst (send_body now outcome config)).
         \<exists>a. get_analytics_data config = JDict a \<and> snd r = build_payload a)"
proof (intro conjI)
  show "map fst (build_payload analytics) =
     [''first_install_date'', ''platform'', ''locale'', ''timezone'', ''total_uses'',
      ''has_logged_in'', ''signup_method'', ''auth_button_clicked'', ''last_used_date'',
      ''onboarding_completed'', ''tutorial_status'', ''tutorial_current_step'',
      ''quick_action_usage_count'', ''shortcut_usage_count'']"
    by (simp add: build_payload_def)
  then show "set (map fst (build_payload analytics))
       = set spec_record_fields - {''daily_usage'', ''last_analytics_sent''}"
    by (simp only: spec_record_fields_def) auto
  show "\<forall>r \<in> set (fst (send_body now outcome config)).
         \<exists>a. get_analytics_data config = JDict a \<and> snd r = build_payload a"
    by (cases "dict_get config ''analytics_endpoint''"; cases "get_analytics_data config")
      (simp_all add: send_body_requests)
qed

lemma sample_config_get:
  "get_analytics_data sample_config =
     JDict [(''first_install_date'', JStr ''2026-10-24T09:05:00''),
              (''total_uses'', JInt 7),
              (''daily_usage'', JDict [(''2026-10-24'', JInt 4), (''2026-11-02'', JInt 3)]),
              (''last_used_date'', JStr ''2026-11-02'')]"
  "dict_get sample_config ''analytics_endpoint'' = JStr ''https://collector.example/ingest''"
  by (simp_all add: sample_config_def get_analytics_data_def dict_get_default_def dict_get_def)

lemma sample_config_requests:
  "outcome \<noteq> Refused \<Longrightarrow> fst (send_body sample_now outcome sample_config) =
     [(''https://collector.example/ingest'',
       build_payload [(''first_install_date'', JStr ''2026-10-24T09:05:00''),
              (''total_uses'', JInt 7),
              (''daily_usage'', JDict [(''2026-10-24'', JInt 4), (''2026-11-02'', JInt 3)]),
              (''last_used_date'', JStr ''2026-11-02'')])]"
  by (simp add: send_body_requests sample_config_get)

theorem payload_fixed_shape_witness:
  "fst (send_body sample_now (Response 200) sample_config) \<noteq> []
   \<and> snd (hd (fst (send_body sample_now (Response 200) sample_config)))
       = build_payload [(''first_install_date'', JStr ''2026-10-24T09:05:00''),
              (''total_uses'', JInt 7),
              (''daily_usage'', JDict [(''2026-10-24'', JInt 4), (''2026-11-02'', JInt 3)]),
              (''last_used_date'', JStr ''2026-11-02'')]"
  using payload_fixed_shape [of "[]" sample_now "Response 200" sample_config]
  by (simp add: sample_config_requests sample_config_get)

theorem payload_keys_counterexample:
  "set (map fst (snd (hd (fst (send_body sample_now (Response 200) sample_config)))))
     \<noteq> set spec_record_fields"
proof
  assume eq: "set (map fst (snd (hd (fst (send_body sample_now (Response 200) sample_config)))))
     = set spec_record_fields"
  have "''daily_usage'' \<in> set spec_record_fields"
    by (simp add: spec_record_fields_def)
  with eq have "''daily_usage'' \<in> set (map fst (snd (hd (fst (send_body sample_now (Response 200) sample_config)))))"
    by simp
  then show False
    by (simp add: sample_config_requests build_payload_def)
qed



subsection \<open>Evaluating the formats\<close>

lemma digit_char_simps:
  "digit_char 0 = CHR ''0''" "digit_char 1 = CHR ''1''" "digit_char 2 = CHR ''2''"
  "digit_char 3 = CHR ''3''" "digit_char 4 = CHR ''4''" "digit_char 5 = CHR ''5''"
  "digit_char 6 = CHR ''6''" "digit_char 7 = CHR ''7''" "digit_char 8 = CHR ''8''"
  "digit_char 9 = CHR ''9''" "digit_char (Suc 0) = CHR ''1''"
  by (simp_all add: digit_char_def)

lemma digit_val_simps:
  "digit_val CHR ''0'' = Some 0" "digit_val CHR ''1'' = Some 1" "digit_val CHR ''2'' = Some 2"
  "digit_val CHR ''3'' = Some 3" "digit_val CHR ''4'' = Some 4" "digit_val CHR ''5'' = Some 5"
  "digit_val CHR ''6'' = Some 6" "digit_val CHR ''7'' = Some 7" "digit_val CHR ''8'' = Some 8"
  "digit_val CHR ''9'' = Some 9"
  by (simp_all add: digit_val_def)

lemmas format_eval = isoformat_def strftime_ymd_def year_unpadded_def year_padded_def
  iso_date_def zfill_def str_nat.simps digit_char_simps

lemmas parse_eval = fromisoformat_canonical_def substr_def parse_nat_def digit_val_simps
  valid_datetime_def valid_date_def days_in_month_def is_leap_def

lemma isoformat_samples:
  "isoformat sample_now = ''2026-11-03T09:05:00''"
  "isoformat sample_next_day = ''2026-11-04T08:30:15.250000''"
  by (simp_all add: format_eval sample_now_def sample_next_day_def)

lemma fromisoformat_samples:
  "fromisoformat_canonical ''2026-11-03T09:05:00'' = Inr sample_now"
  "fromisoformat_canonical ''2026-11-04T08:30:15.250000'' = Inr sample_next_day"
  by (simp_all add: parse_eval sample_now_def sample_next_day_def)

subsection \<open>The daily gate\<close>

lemma date_less_irrefl: "\<not> date_less d d"
  by (simp add: date_less_def split: prod.splits)

lemma should_send_analytics_eq:
  assumes "get_analytics_data config = JDict a"
  shows "should_send_analytics fromisoformat now config =
     Inr (\<not> (\<exists>d. truthy (field ''last_analytics_sent'' config)
               \<and> parse_stored fromisoformat (field ''last_analytics_sent'' config) = Inr d
               \<and> \<not> date_less (date_of d) (date_of now)))"
  using assms
  by (auto simp: should_send_analytics_def with_analytics_dict field_dict Let_def split: sum.splits)

lemma send_analytics_background_requests:
  "send_analytics_background now outcome config = Inr (c, reqs) \<Longrightarrow>
   reqs = fst (send_body now outcome config)"
  by (cases "send_body now outcome config")
    (auto simp: send_analytics_background_def split: sum.splits)

lemma send_analytics_background_total:
  "\<exists>c reqs. send_analytics_background now outcome config = Inr (c, reqs)"
  by (cases "send_body now outcome config")
    (auto simp: send_analytics_background_def split: sum.splits)

text \<open>
  Claim C4, as amended. \<open>try_send_daily_analytics\<close> skips the upload exactly when the
  stored \<open>last_analytics_sent\<close> parses to a date that is not before today, that is today
  or a later day. Then nothing is started and no request is made. When the stored date is
  today's this is the case; when it is an earlier day, yesterday's for one, or nothing is
  stored, exactly one flush is started. That flush makes exactly one request when an
  endpoint is configured and the library accepts it as a URL, and none when the library
  refuses it.
\<close>

theorem daily_flush_gate:
  assumes "get_analytics_data config = JDict a"
  shows "\<exists>r. try_send_daily_analytics fromisoformat now now_send outcome config = Inr r
     \<and> flushes_started r \<le> 1
     \<and> length (requests r) \<le> flushes_started r
     \<and> (flushes_started r = 0 \<longleftrightarrow>
          (\<exists>d. truthy (field ''last_analytics_sent'' config)
             \<and> parse_stored fromisoformat (field ''last_analytics_sent'' config) = Inr d
             \<and> \<not> date_less (date_of d) (date_of now)))
     \<and> (flushes_started r = 0 \<longrightarrow> store r = config \<and> requests r = [])
     \<and> (\<forall>s d. field ''last_analytics_sent'' config = JStr s \<and> s \<noteq> [] \<and> fromisoformat s = Inr d
            \<and> date_of d = date_of now \<longrightarrow> flushes_started r = 0 \<and> requests r = [])
     \<and> (\<forall>s d. field ''last_analytics_sent'' config = JStr s \<and> fromisoformat s = Inr d
            \<and> date_less (date_of d) (date_of now) \<longrightarrow> flushes_started r = 1)
     \<and> (field ''last_analytics_sent'' config = JNull \<longrightarrow> flushes_started r = 1)
     \<and> (\<forall>u. flushes_started r = 1 \<and> dict_get config ''analytics_endpoint'' = JStr u \<and> u \<noteq> []
              \<and> outcome \<noteq> Refused
            \<longrightarrow> requests r = [(u, build_payload a)])
     \<and> (outcome = Refused \<longrightarrow> requests r = [])"
proof -
  define skip where "skip \<longleftrightarrow> (\<exists>d. truthy (field ''last_analytics_sent'' config)
             \<and> parse_stored fromisoformat (field ''last_analytics_sent'' config) = Inr d
             \<and> \<not> date_less (date_of d) (date_of now))"
  have ss: "should_send_analytics fromisoformat now config = Inr (\<not> skip)"
    unfolding skip_def by (rule should_send_analytics_eq [OF assms])
  have today: "\<forall>s d. field ''last_analytics_sent'' config = JStr s \<and> s \<noteq> [] \<and> fromisoformat s = Inr d
            \<and> date_of d = date_of now \<longrightarrow> skip"
    unfolding skip_def by (auto simp: parse_stored_def date_less_irrefl)
  have earlier: "\<forall>s d. field ''last_analytics_sent'' config = JStr s \<and> fromisoformat s = Inr d
            \<and> date_less (date_of d) (date_of now) \<longrightarrow> \<not> skip"
    unfolding skip_def by (auto simp: parse_stored_def)
  have absent: "field ''last_analytics_sent'' config = JNull \<longrightarrow> \<not> skip"
    unfolding skip_def by auto
  show ?thesis
  proof (cases skip)
    case True
    with ss have "try_send_daily_analytics fromisoformat now now_send outcome config
        = Inr \<lparr>store = config, flushes_started = 0, requests = []\<rparr>"
      by (simp add: try_send_daily_analytics_def)
    with True earlier absent show ?thesis
      unfolding skip_def [symmetric] by auto
  next
    case False
    obtain c reqs where sb: "send_analytics_background now_send outcome config = Inr (c, reqs)"
      using send_analytics_background_total by blast
    then have reqs: "reqs = fst (send_body now_send outcome config)"
      by (rule send_analytics_background_requests)
    from False ss sb
    have r: "try_send_daily_analytics fromisoformat now now_send outcome config
        = Inr \<lparr>store = c, flushes_started = 1, requests = reqs\<rparr>"
      by (simp add: try_send_daily_analytics_def)
    have len: "length reqs \<le> 1"
      unfolding reqs by (simp add: send_body_requests split: jval.splits)
    have ep: "\<forall>u. dict_get config ''analytics_endpoint'' = JStr u \<and> u \<noteq> []
                \<and> outcome \<noteq> Refused
              \<longrightarrow> reqs = [(u, build_payload a)]"
      unfolding reqs using assms by (simp add: send_body_requests)
    have rf: "outcome = Refused \<longrightarrow> reqs = []"
      unfolding reqs by (simp add: send_body_requests split: jval.splits)
    from r len ep rf today False show ?thesis
      unfolding skip_def [symmetric] by auto
  qed
qed

theorem daily_flush_gate_witness:
  "(\<exists>r. try_send_daily_analytics fromisoformat_canonical sample_next_day sample_next_day (Response 200)
          [(''analytics_endpoint'', JStr ''https://collector.example/ingest''),
           (''analytics'', JDict [(''last_analytics_sent'', JStr ''2026-11-04T08:30:15.250000'')])] = Inr r
        \<and> flushes_started r = 0 \<and> requests r = [])
   \<and> (\<exists>r. try_send_daily_analytics fromisoformat_canonical sample_next_day sample_next_day (Response 200)
          [(''analytics_endpoint'', JStr ''https://collector.example/ingest''),
           (''analytics'', JDict [(''last_analytics_sent'', JStr ''2026-11-03T09:05:00'')])] = Inr r
        \<and> flushes_started r = 1
        \<and> requests r = [(''https://collector.example/ingest'',
                          build_payload [(''last_analytics_sent'', JStr ''2026-11-03T09:05:00'')])])
   \<and> (\<exists>r. try_send_daily_analytics fromisoformat_canonical sample_now sample_now (Response 200)
          [(''analytics_endpoint'', JStr ''https://collector.example/ingest'')] = Inr r
        \<and> flushes_started r = 1
        \<and> requests r = [(''https://collector.example/ingest'', build_payload [])])
   \<and> (\<exists>r. try_send_daily_analytics fromisoformat_canonical sample_now sample_now Refused
          [(''analytics_endpoint'', JStr ''notaurl'')] = Inr r
        \<and> flushes_started r = 1 \<and> requests r = [])"
proof -
  let ?u = "''https://collector.example/ingest''"
  let ?c4 = "[(''analytics_endpoint'', JStr ''notaurl'')]"
  have g4: "get_analytics_data ?c4 = JDict []"
    by (simp add: get_analytics_data_def dict_get_default_def)
  have f4: "field ''last_analytics_sent'' ?c4 = JNull"
    by (simp add: field_def g4 dict_get_def)
  let ?c1 = "[(''analytics_endpoint'', JStr ?u),
           (''analytics'', JDict [(''last_analytics_sent'', JStr ''2026-11-04T08:30:15.250000'')])]"
  let ?c2 = "[(''analytics_endpoint'', JStr ?u),
           (''analytics'', JDict [(''last_analytics_sent'', JStr ''2026-11-03T09:05:00'')])]"
  let ?c3 = "[(''analytics_endpoint'', JStr ?u)]"
  have g1: "get_analytics_data ?c1 = JDict [(''last_analytics_sent'', JStr ''2026-11-04T08:30:15.250000'')]"
    and g2: "get_analytics_data ?c2 = JDict [(''last_analytics_sent'', JStr ''2026-11-03T09:05:00'')]"
    and g3: "get_analytics_data ?c3 = JDict []"
    by (simp_all add: get_analytics_data_def dict_get_default_def)
  have f1: "field ''last_analytics_sent'' ?c1 = JStr ''2026-11-04T08:30:15.250000''"
    and f2: "field ''last_analytics_sent'' ?c2 = JStr ''2026-11-03T09:05:00''"
    and f3: "field ''last_analytics_sent'' ?c3 = JNull"
    by (simp_all add: field_def g1 g2 g3 dict_get_def)
  have e: "dict_get ?c1 ''analytics_endpoint'' = JStr ?u" "dict_get ?c2 ''analytics_endpoint'' = JStr ?u"
    "dict_get ?c3 ''analytics_endpoint'' = JStr ?u"
    by (simp_all add: dict_get_def)
  have lt: "date_less (date_of sample_now) (date_of sample_next_day)"
    by (simp add: date_less_def date_of_def sample_now_def sample_next_day_def)
  from daily_flush_gate [OF g1, of fromisoformat_canonical sample_next_day sample_next_day "Response 200"]
    f1 fromisoformat_samples(2)
  have "\<exists>r. try_send_daily_analytics fromisoformat_canonical sample_next_day sample_next_day (Response 200) ?c1 = Inr r
        \<and> flushes_started r = 0 \<and> requests r = []"
    by auto
  moreover
  from daily_flush_gate [OF g2, of fromisoformat_canonical sample_next_day sample_next_day "Response 200"]
    f2 fromisoformat_samples(1) lt e(2)
  have "\<exists>r. try_send_daily_analytics fromisoformat_canonical sample_next_day sample_next_day (Response 200) ?c2 = Inr r
        \<and> flushes_started r = 1
        \<and> requests r = [(?u, build_payload [(''last_analytics_sent'', JStr ''2026-11-03T09:05:00'')])]"
    by auto
  moreover
  from daily_flush_gate [OF g3, of fromisoformat_canonical sample_now sample_now "Response 200"]
    f3 e(3)
  have "\<exists>r. try_send_daily_analytics fromisoformat_canonical sample_now sample_now (Response 200) ?c3 = Inr r
        \<and> flushes_started r = 1 \<and> requests r = [(?u, build_payload [])]"
    by auto
  moreover
  from daily_flush_gate [OF g4, of fromisoformat_canonical sample_now sample_now Refused] f4
  have "\<exists>r. try_send_daily_analytics fromisoformat_canonical sample_now sample_now Refused ?c4 = Inr r
        \<and> flushes_started r = 1 \<and> requests r = []"
    by auto
  ultimately show ?thesis by blast
qed

theorem daily_flush_gate_counterexample:
  "try_send_daily_analytics fromisoformat_canonical sample_now sample_now (Response 200)
     [(''analytics_endpoint'', JStr ''https://collector.example/ingest''),
      (''analytics'', JDict [(''last_analytics_sent'', JStr ''2026-11-04T08:30:15.250000'')])]
   = Inr \<lparr>store = [(''analytics_endpoint'', JStr ''https://collector.example/ingest''),
                    (''analytics'', JDict [(''last_analytics_sent'', JStr ''2026-11-04T08:30:15.250000'')])],
           flushes_started = 0, requests = []\<rparr>
   \<and> fromisoformat_canonical ''2026-11-04T08:30:15.250000'' = Inr sample_next_day
   \<and> date_of sample_next_day \<noteq> date_of sample_now"
  by (simp add: try_send_daily_analytics_def should_send_analytics_def with_analytics_def
      get_analytics_data_def dict_get_default_def dict_get_def parse_stored_def
      fromisoformat_samples date_less_def date_of_def sample_now_def sample_next_day_def)

subsection \<open>Counters\<close>

lemma dict_get_default_dict_set:
  "dict_get_default (dict_set k v d) k' dflt = (if k' = k then v else dict_get_default d k' dflt)"
  by (simp add: dict_get_default_def dict_set_def update_conv')

lemma record_counter_set_other:
  "k \<noteq> k' \<Longrightarrow> record_counter k (dict_set k' v a) = record_counter k a"
  by (simp add: record_counter_def dict_get_default_dict_set)

lemma record_counter_add1:
  "py_add1 (dict_get_default a k (JInt 0)) = Inr v \<Longrightarrow>
   record_counter k (dict_set k v a) = record_counter k a + 1"
  by (cases "dict_get_default a k (JInt 0)")
    (auto simp: record_counter_def dict_get_default_dict_set)

lemma counter_value_dict:
  "get_analytics_data config = JDict a \<Longrightarrow> counter_value k config = record_counter k a"
  by (simp add: counter_value_def)

lemma cleanup_old_daily_data_result:
  assumes "cleanup_old_daily_data year_text now a = Inr a'"
  shows "a' = a \<or> (\<exists>v. a' = dict_set ''daily_usage'' v a)"
  using assms
  by (auto simp: cleanup_old_daily_data_def Let_def split: option.splits sum.splits jval.splits)

lemma track_usage_result:
  assumes "get_analytics_data config = JDict a"
    and "track_usage year_text now now_cleanup config = Inr c'"
  shows "\<exists>uses du a4. py_add1 (dict_get_default a ''total_uses'' (JInt 0)) = Inr uses
     \<and> cleanup_old_daily_data year_text now_cleanup
          (dict_set ''last_used_date'' (JStr (strftime_ymd year_text now))
             (dict_set ''daily_usage'' (JDict du) (dict_set ''total_uses'' uses a))) = Inr a4
     \<and> c' = save_analytics_data a4 config"
  using assms
  by (auto simp: track_usage_def with_analytics_dict Let_def split: sum.splits jval.splits)

lemma send_analytics_background_store:
  assumes "send_analytics_background now outcome config = Inr (c, reqs)"
  shows "c = config \<or> (\<exists>a. get_analytics_data config = JDict a
           \<and> c = flush_write_back now a config)"
  using assms
  by (auto simp: send_analytics_background_def send_body_def Let_def
      split: sum.splits jval.splits http_outcome.splits if_splits)

lemma record_counter_write_back:
  "k \<noteq> ''last_analytics_sent'' \<Longrightarrow>
   counter_value k (flush_write_back now snapshot config) = record_counter k snapshot"
  by (simp add: counter_value_dict [OF flush_write_back_fields(3)] record_counter_set_other)

lemma exec_effect:
  assumes g: "get_analytics_data config = JDict a"
    and ex: "exec operation config = Inr c'"
    and ninit: "\<forall>env now. operation = Initialize env now \<longrightarrow> truthy (dict_get a ''first_install_date'')"
    and nwb: "\<not> is_write_back operation"
  shows "\<exists>a'. get_analytics_data c' = JDict a'
     \<and> dict_get a' ''first_install_date'' = dict_get a ''first_install_date''
     \<and> record_counter ''total_uses'' a \<le> record_counter ''total_uses'' a'
     \<and> record_counter ''quick_action_usage_count'' a \<le> record_counter ''quick_action_usage_count'' a'
     \<and> record_counter ''shortcut_usage_count'' a \<le> record_counter ''shortcut_usage_count'' a'"
proof (cases operation)
  case (Initialize env now)
  with g ex ninit have "c' = config"
    by (simp add: init_analytics_installed)
  with g show ?thesis by simp
next
  case (RecordUsage year_text now now_cleanup)
  with ex have "track_usage year_text now now_cleanup config = Inr c'" by simp
  from track_usage_result [OF g this] obtain uses du a4 where
    u: "py_add1 (dict_get_default a ''total_uses'' (JInt 0)) = Inr uses"
    and cl: "cleanup_old_daily_data year_text now_cleanup
          (dict_set ''last_used_date'' (JStr (strftime_ymd year_text now))
             (dict_set ''daily_usage'' (JDict du) (dict_set ''total_uses'' uses a))) = Inr a4"
    and c': "c' = save_analytics_data a4 config"
    by blast
  from cleanup_old_daily_data_result [OF cl] u show ?thesis
    unfolding c'
    by (auto simp: get_saved dict_get_dict_set record_counter_set_other record_counter_add1)
next
  case (RecordSignupClick signup_kind now)
  with g ex show ?thesis
    by (auto simp: track_signup_click_def with_analytics_dict get_saved dict_get_dict_set
        record_counter_set_other split: if_splits)
next
  case (RecordAuthButtonClick button_type now)
  with g ex show ?thesis
    by (auto simp: track_auth_button_click_def with_analytics_dict get_saved dict_get_dict_set
        record_counter_set_other split: if_splits)
next
  case (RecordLoginDetected now)
  with g ex show ?thesis
    by (auto simp: track_login_detected_def with_analytics_dict get_saved dict_get_dict_set
        record_counter_set_other split: if_splits)
next
  case RecordOnboardingCompleted
  with g ex show ?thesis
    by (auto simp: track_onboarding_completed_def with_analytics_dict get_saved dict_get_dict_set
        record_counter_set_other split: if_splits)
next
  case (SetTutorialStatus status)
  with g ex show ?thesis
    by (auto simp: track_tutorial_status_def with_analytics_dict get_saved dict_get_dict_set
        record_counter_set_other Let_def split: if_splits)
next
  case (SetTutorialStep current total_steps)
  with g ex show ?thesis
    by (auto simp: track_tutorial_step_def with_analytics_dict get_saved dict_get_dict_set
        record_counter_set_other)
next
  case IncrementQuickActionUsage
  with g ex show ?thesis
    by (auto simp: track_quick_action_used_def increment_counter_def with_analytics_dict get_saved
        dict_get_dict_set record_counter_set_other record_counter_add1 split: sum.splits)
next
  case IncrementShortcutUsage
  with g ex show ?thesis
    by (auto simp: track_shortcut_used_def increment_counter_def with_analytics_dict get_saved
        dict_get_dict_set record_counter_set_other record_counter_add1 split: sum.splits)
next
  case (Flush now outcome)
  with ex obtain reqs where "send_analytics_background now outcome config = Inr (c', reqs)"
    by (auto split: sum.splits)
  from send_analytics_background_store [OF this] g show ?thesis
    by (auto simp: flush_write_back_fields dict_get_dict_set record_counter_set_other)
next
  case (FlushWriteBack snapshot now)
  with nwb show ?thesis by simp
qed

lemma step_effect:
  assumes g: "get_analytics_data config = JDict a"
    and ninit: "\<forall>env now. operation = Initialize env now \<longrightarrow> truthy (dict_get a ''first_install_date'')"
    and nwb: "\<not> is_write_back operation"
  shows "\<exists>a'. get_analytics_data (step operation config) = JDict a'
     \<and> dict_get a' ''first_install_date'' = dict_get a ''first_install_date''
     \<and> record_counter ''total_uses'' a \<le> record_counter ''total_uses'' a'
     \<and> record_counter ''quick_action_usage_count'' a \<le> record_counter ''quick_action_usage_count'' a'
     \<and> record_counter ''shortcut_usage_count'' a \<le> record_counter ''shortcut_usage_count'' a'"
proof (cases "exec operation config")
  case (Inl e)
  with g show ?thesis by (simp add: step_def)
next
  case (Inr c')
  from exec_effect [OF g Inr ninit nwb] Inr show ?thesis by (simp add: step_def)
qed

lemma step_not_dict:
  assumes "\<forall>a. get_analytics_data config \<noteq> JDict a" and "\<not> is_write_back operation"
  shows "step operation config = config"
proof (cases operation)
  case (Flush now outcome)
  obtain c reqs where s: "send_analytics_background now outcome config = Inr (c, reqs)"
    using send_analytics_background_total by blast
  from send_analytics_background_store [OF s] assms have "c = config" by blast
  with s Flush show ?thesis by (simp add: step_def)
qed (use assms in \<open>auto simp: step_def with_analytics_def init_analytics_def track_usage_def
      track_signup_click_def track_auth_button_click_def track_login_detected_def
      track_onboarding_completed_def track_tutorial_status_def track_tutorial_step_def
      track_quick_action_used_def track_shortcut_used_def increment_counter_def
      split: jval.splits\<close>)

lemma run_not_dict:
  "\<forall>a. get_analytics_data config \<noteq> JDict a \<Longrightarrow> \<forall>operation \<in> set ops. \<not> is_write_back operation \<Longrightarrow>
   run ops config = config"
  by (induction ops) (simp_all add: step_not_dict)

lemma run_append: "run (xs @ ys) config = run ys (run xs config)"
  by (induction xs arbitrary: config) simp_all

lemma step_monotone:
  assumes "key \<in> {''total_uses'', ''quick_action_usage_count'', ''shortcut_usage_count''}"
    and "\<forall>env now. operation = Initialize env now \<longrightarrow> truthy (field ''first_install_date'' config)"
    and "\<forall>snapshot now. operation = FlushWriteBack snapshot now
           \<longrightarrow> counter_value key config \<le> record_counter key snapshot"
  shows "counter_value key config \<le> counter_value key (step operation config)"
proof (cases "is_write_back operation")
  case True
  then obtain snapshot now where op: "operation = FlushWriteBack snapshot now"
    by (cases operation) simp_all
  from assms(1) have "key \<noteq> ''last_analytics_sent''" by auto
  then have "counter_value key (step operation config) = record_counter key snapshot"
    by (simp add: op step_def record_counter_write_back)
  with assms(3) op show ?thesis by simp
next
  case nwb: False
  show ?thesis
  proof (cases "\<exists>a. get_analytics_data config = JDict a")
    case True
    then obtain a where g: "get_analytics_data config = JDict a" by blast
    with assms(2) have "\<forall>env now. operation = Initialize env now \<longrightarrow> truthy (dict_get a ''first_install_date'')"
      by (simp add: field_dict)
    from step_effect [OF g this nwb] g assms(1) show ?thesis
      by (auto simp: counter_value_dict)
  next
    case False
    with nwb show ?thesis by (simp add: step_not_dict)
  qed
qed

lemma step_installed:
  assumes "truthy (field ''first_install_date'' config)" and nwb: "\<not> is_write_back operation"
  shows "truthy (field ''first_install_date'' (step operation config))"
proof -
  from assms obtain a where g: "get_analytics_data config = JDict a"
    by (auto simp: field_def split: jval.splits)
  with assms have "truthy (dict_get a ''first_install_date'')" by (simp add: field_dict)
  then have "\<forall>env now. operation = Initialize env now \<longrightarrow> truthy (dict_get a ''first_install_date'')"
    by simp
  from step_effect [OF g this nwb] \<open>truthy (dict_get a ''first_install_date'')\<close> show ?thesis
    by (auto simp: field_dict)
qed

lemma run_installed:
  "truthy (field ''first_install_date'' config) \<Longrightarrow> \<forall>operation \<in> set ops. \<not> is_write_back operation \<Longrightarrow>
   truthy (field ''first_install_date'' (run ops config))"
  by (induction ops arbitrary: config) (simp_all add: step_installed)

lemma run_monotone:
  assumes "key \<in> {''total_uses'', ''quick_action_usage_count'', ''shortcut_usage_count''}"
  shows "truthy (field ''first_install_date'' config) \<Longrightarrow>
     \<forall>operation \<in> set ops. \<not> is_write_back operation \<Longrightarrow>
     counter_value key config \<le> counter_value key (run ops config)"
proof (induction ops arbitrary: config)
  case Nil
  then show ?case by simp
next
  case (Cons operation ops)
  from Cons.prems have nwb: "\<not> is_write_back operation"
    and rest: "\<forall>operation \<in> set ops. \<not> is_write_back operation"
    by simp_all
  from nwb have "\<forall>snapshot now. operation \<noteq> FlushWriteBack snapshot now" by auto
  with Cons.prems(1) have "counter_value key config \<le> counter_value key (step operation config)"
    by (intro step_monotone [OF assms]) simp_all
  also from Cons.prems(1) nwb rest
  have "\<dots> \<le> counter_value key (run ops (step operation config))"
    by (intro Cons.IH step_installed)
  finally show ?case by simp
qed

lemma init_step_installed_or_stuck:
  "truthy (field ''first_install_date'' (step (Initialize env now) config))
   \<or> (\<forall>a. get_analytics_data (step (Initialize env now) config) \<noteq> JDict a)"
proof (cases "\<exists>a. get_analytics_data config = JDict a")
  case True
  then obtain a where g: "get_analytics_data config = JDict a" by blast
  show ?thesis
  proof (cases "truthy (dict_get a ''first_install_date'')")
    case True
    with g show ?thesis by (simp add: step_def init_analytics_installed field_dict)
  next
    case False
    with g show ?thesis
      by (simp add: step_def init_analytics_fresh field_saved init_fields_get isoformat_nonempty)
  qed
next
  case False
  then show ?thesis by (simp add: step_not_dict)
qed

text \<open>
  A late write: the flush thread read the record when \<open>total_uses\<close> was 7; a usage event
  then raised it to 8; the thread's write puts the 7 back.
\<close>

lemma stale_write_back_lowers_counter:
  "counter_value ''total_uses'' [(''analytics'', JDict [(''total_uses'', JInt 8)])] = 8
   \<and> counter_value ''total_uses''
        (step (FlushWriteBack [(''total_uses'', JInt 7)] sample_now)
           [(''analytics'', JDict [(''total_uses'', JInt 8)])]) = 7"
  by (simp add: step_def record_counter_write_back counter_value_dict [OF gad1]
      record_counter_def dict_get_default_def)

text \<open>
  Claim C1, as amended. For each of the counters \<open>total_uses\<close>,
  \<open>quick_action_usage_count\<close> and \<open>shortcut_usage_count\<close>: an operation never lowers the
  counter, with two exceptions. One is an \<open>init_analytics\<close> that finds no install date
  (that call resets the counters to zero). The other is the late write of a flush thread
  that was overtaken by other operations, when the record it read holds a lower count
  than the store does by then. So when every flush finishes before the next operation
  begins, the counter never decreases along any sequence of operations on a record with
  an install date, and along any sequence whatsoever it never decreases from the first
  \<open>init_analytics\<close> onwards.
\<close>

theorem counters_never_decrease:
  assumes "key \<in> {''total_uses'', ''quick_action_usage_count'', ''shortcut_usage_count''}"
  shows "((\<forall>env now. operation = Initialize env now \<longrightarrow> truthy (field ''first_install_date'' config))
          \<and> (\<forall>snapshot now. operation = FlushWriteBack snapshot now
                \<longrightarrow> counter_value key config \<le> record_counter key snapshot)
            \<longrightarrow> counter_value key config \<le> counter_value key (step operation config))
       \<and> (truthy (field ''first_install_date'' config)
          \<and> (\<forall>operation \<in> set (ops1 @ ops2). \<not> is_write_back operation)
            \<longrightarrow> counter_value key (run ops1 config) \<le> counter_value key (run (ops1 @ ops2) config))
       \<and> ((\<forall>operation \<in> set (ops1 @ ops2). \<not> is_write_back operation)
            \<longrightarrow> counter_value key (run (Initialize env0 now0 # ops1) config)
                  \<le> counter_value key (run (Initialize env0 now0 # ops1 @ ops2) config))"
proof (intro conjI impI)
  assume "(\<forall>env now. operation = Initialize env now \<longrightarrow> truthy (field ''first_install_date'' config))
          \<and> (\<forall>snapshot now. operation = FlushWriteBack snapshot now
                \<longrightarrow> counter_value key config \<le> record_counter key snapshot)"
  then show "counter_value key config \<le> counter_value key (step operation config)"
    by (intro step_monotone [OF assms]) simp_all
next
  assume a: "truthy (field ''first_install_date'' config)
          \<and> (\<forall>operation \<in> set (ops1 @ ops2). \<not> is_write_back operation)"
  then have n1: "\<forall>operation \<in> set ops1. \<not> is_write_back operation"
    and n2: "\<forall>operation \<in> set ops2. \<not> is_write_back operation"
    by simp_all
  from a n1 have "truthy (field ''first_install_date'' (run ops1 config))"
    by (intro run_installed) simp_all
  then have "counter_value key (run ops1 config) \<le> counter_value key (run ops2 (run ops1 config))"
    using n2 by (rule run_monotone [OF assms])
  then show "counter_value key (run ops1 config) \<le> counter_value key (run (ops1 @ ops2) config)"
    by (simp add: run_append)
next
  assume a: "\<forall>operation \<in> set (ops1 @ ops2). \<not> is_write_back operation"
  then have n1: "\<forall>operation \<in> set ops1. \<not> is_write_back operation"
    and n2: "\<forall>operation \<in> set ops2. \<not> is_write_back operation"
    by simp_all
  let ?c = "step (Initialize env0 now0) config"
  from init_step_installed_or_stuck [of env0 now0 config]
  have "counter_value key (run ops1 ?c) \<le> counter_value key (run ops2 (run ops1 ?c))"
  proof
    assume "truthy (field ''first_install_date'' ?c)"
    then have "truthy (field ''first_install_date'' (run ops1 ?c))"
      using n1 by (rule run_installed)
    then show ?thesis using n2 by (rule run_monotone [OF assms])
  next
    assume nd: "\<forall>a. get_analytics_data ?c \<noteq> JDict a"
    from run_not_dict [OF nd n1] have 1: "run ops1 ?c = ?c" .
    from run_not_dict [OF nd a] have 2: "run (ops1 @ ops2) ?c = ?c" .
    from 2 have "run ops2 (run ops1 ?c) = ?c" by (simp add: run_append)
    with 1 show ?thesis by simp
  qed
  then show "counter_value key (run (Initialize env0 now0 # ops1) config)
            \<le> counter_value key (run (Initialize env0 now0 # ops1 @ ops2) config)"
    by (simp add: run_append)
qed

lemma sample_config_counter: "counter_value ''total_uses'' sample_config = 7"
  by (simp add: counter_value_def sample_config_get record_counter_def dict_get_default_def)

lemma sample_config_installed: "truthy (field ''first_install_date'' sample_config)"
  by (simp add: field_def sample_config_get dict_get_def)

theorem counters_never_decrease_witness:
  "7 \<le> counter_value ''total_uses''
          (step (Initialize sample_env sample_next_day) sample_config)
   \<and> 7 \<le> counter_value ''total_uses''
          (run ([] @ [RecordUsage year_unpadded sample_next_day sample_next_day,
                      IncrementShortcutUsage, Flush sample_next_day (Response 200),
                      Initialize failing_env sample_next_day]) sample_config)
   \<and> 7 \<le> counter_value ''total_uses''
          (step (FlushWriteBack [(''total_uses'', JInt 9)] sample_next_day) sample_config)"
proof -
  have k: "''total_uses'' \<in> {''total_uses'', ''quick_action_usage_count'', ''shortcut_usage_count''}"
    by simp
  have i: "(\<forall>env now. Initialize sample_env sample_next_day = Initialize env now
             \<longrightarrow> truthy (field ''first_install_date'' sample_config))
        \<and> (\<forall>snapshot now. Initialize sample_env sample_next_day = FlushWriteBack snapshot now
             \<longrightarrow> counter_value ''total_uses'' sample_config \<le> record_counter ''total_uses'' snapshot)"
    by (simp add: sample_config_installed)
  have n: "\<forall>operation \<in> set ([] @ [RecordUsage year_unpadded sample_next_day sample_next_day,
                      IncrementShortcutUsage, Flush sample_next_day (Response 200),
                      Initialize failing_env sample_next_day]). \<not> is_write_back operation"
    by simp
  from counters_never_decrease [OF k, of "Initialize sample_env sample_next_day" sample_config
      "[]" "[RecordUsage year_unpadded sample_next_day sample_next_day, IncrementShortcutUsage,
             Flush sample_next_day (Response 200), Initialize failing_env sample_next_day]"
      sample_env sample_now]
  have "(counter_value ''total_uses'' sample_config
          \<le> counter_value ''total_uses'' (step (Initialize sample_env sample_next_day) sample_config))
      \<and> (counter_value ''total_uses'' (run [] sample_config)
          \<le> counter_value ''total_uses''
              (run ([] @ [RecordUsage year_unpadded sample_next_day sample_next_day,
                      IncrementShortcutUsage, Flush sample_next_day (Response 200),
                      Initialize failing_env sample_next_day]) sample_config))"
    using i n sample_config_installed by (intro conjI) (elim conjE, simp)+
  moreover
  have w: "(\<forall>env now. FlushWriteBack [(''total_uses'', JInt 9)] sample_next_day = Initialize env now
             \<longrightarrow> truthy (field ''first_install_date'' sample_config))
        \<and> (\<forall>snapshot now. FlushWriteBack [(''total_uses'', JInt 9)] sample_next_day
               = FlushWriteBack snapshot now
             \<longrightarrow> counter_value ''total_uses'' sample_config \<le> record_counter ''total_uses'' snapshot)"
    by (auto simp: sample_config_counter record_counter_def dict_get_default_def)
  from counters_never_decrease [OF k, of "FlushWriteBack [(''total_uses'', JInt 9)] sample_next_day"
      sample_config "[]" "[]" sample_env sample_now, THEN conjunct1, THEN mp, OF w]
  have "counter_value ''total_uses'' sample_config
          \<le> counter_value ''total_uses''
              (step (FlushWriteBack [(''total_uses'', JInt 9)] sample_next_day) sample_config)" .
  ultimately show ?thesis by (simp add: sample_config_counter)
qed

theorem counters_never_decrease_counterexample:
  "counter_value ''total_uses''
     (run [RecordUsage year_unpadded sample_now sample_now] []) = 1
   \<and> counter_value ''total_uses''
        (run [RecordUsage year_unpadded sample_now sample_now,
              Initialize sample_env sample_next_day] []) = 0"
proof -
  have d: "minus_days sample_now 90 = Inr (sample_now\<lparr>year := 2026, month := 8, day := 5\<rparr>)"
    by (simp add: minus_days_def toordinal_def ymd2ord_def days_before_year_def days_before_month_def
        DAYS_BEFORE_MONTH_def DAYS_IN_MONTH_def is_leap_def ord2ymd_def MAXORDINAL_def Let_def
        sample_now_def)
  have s: "strftime_ymd year_unpadded sample_now = ''2026-11-03''"
    by (simp add: format_eval sample_now_def)
  have c: "strftime_ymd year_unpadded (sample_now\<lparr>year := 2026, month := 8, day := 5\<rparr>) = ''2026-08-05''"
    by (simp add: format_eval sample_now_def)
  have t: "track_usage year_unpadded sample_now sample_now [] =
      Inr [(''analytics'', JDict [(''total_uses'', JInt 1),
             (''daily_usage'', JDict [(''2026-11-03'', JInt 1)]),
             (''last_used_date'', JStr ''2026-11-03'')])]"
    by (simp add: track_usage_def with_analytics_def get_analytics_data_def dict_get_default_def
        dict_set_def cleanup_old_daily_data_def save_analytics_data_def d s c Let_def)
  have 1: "step (RecordUsage year_unpadded sample_now sample_now) [] =
      [(''analytics'', JDict [(''total_uses'', JInt 1),
             (''daily_usage'', JDict [(''2026-11-03'', JInt 1)]),
             (''last_used_date'', JStr ''2026-11-03'')])]"
    by (simp add: step_def t)
  let ?a1 = "[(''total_uses'', JInt 1),
             (''daily_usage'', JDict [(''2026-11-03'', JInt 1)]),
             (''last_used_date'', JStr ''2026-11-03'')]"
  have f: "\<not> truthy (dict_get ?a1 ''first_install_date'')"
    by (simp add: dict_get_def)
  have a: "counter_value ''total_uses'' [(''analytics'', JDict ?a1)] = 1"
    by (simp add: counter_value_dict [OF gad1] record_counter_def dict_get_default_def)
  have "init_analytics sample_env sample_next_day [(''analytics'', JDict ?a1)]
      = Inr (save_analytics_data (set_items (init_fields sample_env sample_next_day) ?a1)
               [(''analytics'', JDict ?a1)])"
    by (rule init_analytics_fresh [OF gad1 f])
  then have "step (Initialize sample_env sample_next_day) [(''analytics'', JDict ?a1)]
      = save_analytics_data (set_items (init_fields sample_env sample_next_day) ?a1)
               [(''analytics'', JDict ?a1)]"
    by (simp add: step_def)
  then have b: "counter_value ''total_uses''
      (step (Initialize sample_env sample_next_day) [(''analytics'', JDict ?a1)]) = 0"
    by (simp add: counter_value_dict [OF get_saved] record_counter_def dict_get_default_def
        set_items_def init_fields_def dict_set_def update_conv' Let_def)
  from a b show ?thesis by (simp add: 1)
qed

lemma div_pred_int:
  fixes q k :: int
  assumes "0 < k"
  shows "q div k = (q - 1) div k + (if q mod k = 0 then 1 else 0)"
proof (cases "q mod k = 0")
  case True
  have "q = k * (q div k)" using True by (metis add.right_neutral mult_div_mod_eq)
  then have "q - 1 = k * (q div k - 1) + (k - 1)"
    by (simp add: algebra_simps)
  then have "(q - 1) div k = q div k - 1"
    using assms by (intro int_div_pos_eq [where r = "k - 1"]) simp_all
  with True show ?thesis by simp
next
  case False
  have m: "0 \<le> q mod k" "q mod k < k" using assms by simp_all
  have "q - 1 = k * (q div k) + (q mod k - 1)"
    by (simp add: algebra_simps)
  then have "(q - 1) div k = q div k"
    using assms False m by (intro int_div_pos_eq [where r = "q mod k - 1"]) simp_all
  with False show ?thesis by simp
qed

lemma int_mod_eq_0:
  "(int y mod 4 = 0) = (y mod 4 = 0)" "(int y mod 100 = 0) = (y mod 100 = 0)"
  "(int y mod 400 = 0) = (y mod 400 = 0)"
proof -
  have "int (y mod 4) = int y mod 4" "int (y mod 100) = int y mod 100" "int (y mod 400) = int y mod 400"
    by (simp_all only: of_nat_mod of_nat_numeral)
  then show "(int y mod 4 = 0) = (y mod 4 = 0)" "(int y mod 100 = 0) = (y mod 100 = 0)"
    "(int y mod 400 = 0) = (y mod 400 = 0)"
    by (metis of_nat_eq_0_iff)+
qed

lemma d: "(y::nat) mod 400 = 0 \<Longrightarrow> y mod 100 = 0" "(y::nat) mod 100 = 0 \<Longrightarrow> y mod 4 = 0"
  by (auto simp: mod_eq_0_iff_dvd elim: dvd_trans [rotated])


lemma days_before_year_Suc:
  "days_before_year (Suc y) = days_before_year y + 365 + (if is_leap y then 1 else 0)"
proof -
  have a: "int y div 4 = (int y - 1) div 4 + (if y mod 4 = 0 then 1 else 0)"
    and b: "int y div 100 = (int y - 1) div 100 + (if y mod 100 = 0 then 1 else 0)"
    and c: "int y div 400 = (int y - 1) div 400 + (if y mod 400 = 0 then 1 else 0)"
    using div_pred_int [of 4 "int y"] div_pred_int [of 100 "int y"] div_pred_int [of 400 "int y"]
    by (simp_all only: int_mod_eq_0)
  have "days_before_year (Suc y) = int y * 365 + int y div 4 - int y div 100 + int y div 400"
    by (simp add: days_before_year_def Let_def)
  also have "\<dots> = days_before_year y + 365 + (if is_leap y then 1 else 0)"
    unfolding a b c days_before_year_def is_leap_def Let_def
    using d [of y] by (auto simp: algebra_simps)
  finally show ?thesis .
qed


lemma days_before_year_mono_strict:
  "y < y' \<Longrightarrow> days_before_year y + 365 + (if is_leap y then 1 else 0) \<le> days_before_year y'"
proof (induction y')
  case 0
  then show ?case by simp
next
  case (Suc y')
  show ?case
  proof (cases "y = y'")
    case True
    then show ?thesis by (simp add: days_before_year_Suc)
  next
    case False
    with Suc.prems have "y < y'" by simp
    from Suc.IH [OF this] show ?thesis by (simp add: days_before_year_Suc)
  qed
qed

lemma month_cases:
  fixes m :: nat
  shows "1 \<le> m \<Longrightarrow> m \<le> 12 \<Longrightarrow> m \<in> {1, 2, 3, 4, 5, 6, 7, 8, 9, 10, 11, 12}"
  by simp arith

lemma days_before_month_Suc:
  "1 \<le> m \<Longrightarrow> m < 12 \<Longrightarrow> days_before_month y (Suc m) = days_before_month y m + int (days_in_month y m)"
  using month_cases [of m]
  by (auto simp: days_before_month_def days_in_month_def DAYS_BEFORE_MONTH_def)

lemma days_in_month_pos: "1 \<le> m \<Longrightarrow> m \<le> 12 \<Longrightarrow> 28 \<le> days_in_month y m \<and> days_in_month y m \<le> 31"
  using month_cases [of m] by (auto simp: days_in_month_def)

lemma days_before_month_mono:
  "1 \<le> m \<Longrightarrow> m < m' \<Longrightarrow> m' \<le> 12 \<Longrightarrow>
   days_before_month y m + int (days_in_month y m) \<le> days_before_month y m'"
proof (induction m')
  case 0
  then show ?case by simp
next
  case (Suc m')
  show ?case
  proof (cases "m = m'")
    case True
    with Suc.prems show ?thesis by (simp add: days_before_month_Suc)
  next
    case False
    with Suc.prems have lt: "m < m'" "m' \<le> 12" "1 \<le> m'" "m' < 12" by simp_all
    from Suc.IH [OF Suc.prems(1) lt(1,2)] lt show ?thesis
      by (simp add: days_before_month_Suc)
  qed
qed

lemma days_before_month_bounds:
  "1 \<le> m \<Longrightarrow> m \<le> 12 \<Longrightarrow>
   0 \<le> days_before_month y m
   \<and> days_before_month y m + int (days_in_month y m) \<le> 365 + (if is_leap y then 1 else 0)"
  using month_cases [of m]
  by (auto simp: days_before_month_def days_in_month_def DAYS_BEFORE_MONTH_def)

lemma ymd2ord_less:
  assumes "valid_date y m d" "valid_date y' m' d'" "date_less (y, m, d) (y', m', d')"
  shows "ymd2ord y m d < ymd2ord y' m' d'"
proof -
  from assms(1,2) have v: "1 \<le> m" "m \<le> 12" "1 \<le> d" "d \<le> days_in_month y m"
    "1 \<le> m'" "m' \<le> 12" "1 \<le> d'" "d' \<le> days_in_month y' m'"
    by (simp_all add: valid_date_def)
  from assms(3) consider "y < y'" | "y = y'" "m < m'" | "y = y'" "m = m'" "d < d'"
    by (auto simp: date_less_def)
  then show ?thesis
  proof cases
    case 1
    from days_before_year_mono_strict [OF 1] days_before_month_bounds [OF v(1,2), of y]
      days_before_month_bounds [OF v(5,6), of y'] v
    show ?thesis by (simp add: ymd2ord_def)
  next
    case 2
    from days_before_month_mono [OF v(1) 2(2) v(6), of y] v 2
    show ?thesis by (simp add: ymd2ord_def)
  next
    case 3
    then show ?thesis by (simp add: ymd2ord_def)
  qed
qed

lemma date_less_total: "date_less a b \<or> a = b \<or> date_less b a"
  by (auto simp: date_less_def split: prod.splits)

lemma ymd2ord_less_iff:
  assumes "valid_date y m d" "valid_date y' m' d'"
  shows "ymd2ord y m d < ymd2ord y' m' d' \<longleftrightarrow> date_less (y, m, d) (y', m', d')"
  using ymd2ord_less [OF assms] ymd2ord_less [OF assms(2,1)]
    date_less_total [of "(y, m, d)" "(y', m', d')"]
  by auto

lemma ymd2ord_le_iff:
  assumes "valid_date y m d" "valid_date y' m' d'"
  shows "ymd2ord y m d \<le> ymd2ord y' m' d' \<longleftrightarrow> \<not> date_less (y', m', d') (y, m, d)"
  using ymd2ord_less_iff [OF assms(2,1)] by auto

subsection \<open>Dates as strings\<close>

lemma lt10_cases:
  fixes n :: nat
  shows "n < 10 \<Longrightarrow> n \<in> {0, 1, 2, 3, 4, 5, 6, 7, 8, 9}"
  by simp arith

lemma of_char_digit: "n < 10 \<Longrightarrow> of_char (digit_char n) = (48 + n :: nat)"
  using lt10_cases [of n] by (auto simp: digit_char_simps)

lemma digit_char_less: "a < 10 \<Longrightarrow> b < 10 \<Longrightarrow> digit_char a < digit_char b \<longleftrightarrow> a < b"
  by (simp add: less_char_def of_char_digit)

lemma digit_char_inj: "a < 10 \<Longrightarrow> b < 10 \<Longrightarrow> digit_char a = digit_char b \<longleftrightarrow> a = b"
  by (metis of_char_digit add_left_cancel)

lemma replicate_small:
  "replicate 1 c = [c]" "replicate 2 c = [c, c]" "replicate 3 c = [c, c, c]"
  by (simp_all add: numeral_2_eq_2 numeral_3_eq_3)

lemma str_nat1: "n < 10 \<Longrightarrow> str_nat n = [digit_char n]"
  by (simp add: str_nat.simps [of n])

lemma str_nat_step: "\<not> n < 10 \<Longrightarrow> str_nat n = str_nat (n div 10) @ [digit_char (n mod 10)]"
  by (simp add: str_nat.simps [of n])

lemma str_nat2:
  assumes "10 \<le> n" "n < 100"
  shows "str_nat n = [digit_char (n div 10), digit_char (n mod 10)]"
proof -
  from assms have "\<not> n < 10" "n div 10 < 10" by simp_all
  then show ?thesis by (simp add: str_nat_step str_nat1)
qed

lemma str_nat3:
  assumes "100 \<le> n" "n < 1000"
  shows "str_nat n = [digit_char (n div 100), digit_char (n div 10 mod 10), digit_char (n mod 10)]"
proof -
  from assms have a: "\<not> n < 10" "10 \<le> n div 10" "n div 10 < 100" by simp_all
  have "n div 10 div 10 = n div 100" by (simp add: div_mult2_eq)
  with a(1) str_nat2 [OF a(2,3)] show ?thesis
    by (simp add: str_nat_step)
qed

lemma str_nat4:
  assumes "1000 \<le> n" "n < 10000"
  shows "str_nat n = [digit_char (n div 1000), digit_char (n div 100 mod 10),
                      digit_char (n div 10 mod 10), digit_char (n mod 10)]"
proof -
  from assms have a: "\<not> n < 10" "100 \<le> n div 10" "n div 10 < 1000" by simp_all
  have "n div 10 div 100 = n div 1000" "n div 10 div 10 = n div 100"
    by (simp_all add: div_mult2_eq)
  with a(1) str_nat3 [OF a(2,3)] show ?thesis
    by (simp add: str_nat_step)
qed

lemma zfill2:
  assumes "n < 100"
  shows "zfill 2 (str_nat n) = [digit_char (n div 10), digit_char (n mod 10)]"
proof (cases "n < 10")
  case True
  then show ?thesis by (simp add: str_nat1 zfill_def digit_char_simps)
next
  case False
  with assms show ?thesis by (simp add: str_nat2 zfill_def)
qed

lemma zfill4:
  assumes "n < 10000"
  shows "zfill 4 (str_nat n)
    = [digit_char (n div 1000), digit_char (n div 100 mod 10), digit_char (n div 10 mod 10),
       digit_char (n mod 10)]"
proof -
  consider "n < 10" | "10 \<le> n" "n < 100" | "100 \<le> n" "n < 1000" | "1000 \<le> n"
    by linarith
  then show ?thesis
  proof cases
    case 1
    then show ?thesis by (simp add: str_nat1 zfill_def digit_char_simps replicate_small)
  next
    case 2
    then show ?thesis by (simp add: str_nat2 zfill_def digit_char_simps replicate_small)
  next
    case 3
    then show ?thesis by (simp add: str_nat3 zfill_def digit_char_simps replicate_small)
  next
    case 4
    with assms show ?thesis by (simp add: str_nat4 zfill_def)
  qed
qed

lemma key2_less:
  assumes "m < 100" "m' < 100"
  shows "[digit_char (m div 10), digit_char (m mod 10)] < [digit_char (m' div 10), digit_char (m' mod 10)]
     \<longleftrightarrow> m < m'"
proof -
  define a b a' b' where "a = m div 10" and "b = m mod 10" and "a' = m' div 10" and "b' = m' mod 10"
  from assms have d: "a < 10" "a' < 10" "b < 10" "b' < 10"
    by (simp_all add: a_def b_def a'_def b'_def)
  have e: "m = 10 * a + b" "m' = 10 * a' + b'"
    by (simp_all add: a_def b_def a'_def b'_def)
  have "[digit_char a, digit_char b] < [digit_char a', digit_char b']
      \<longleftrightarrow> a < a' \<or> (a = a' \<and> b < b')"
    by (simp add: digit_char_less digit_char_inj d)
  also have "\<dots> \<longleftrightarrow> m < m'"
    unfolding e using d by auto
  finally show ?thesis
    by (simp only: a_def b_def a'_def b'_def)
qed

lemma key2_eq:
  assumes "m < 100" "m' < 100"
  shows "[digit_char (m div 10), digit_char (m mod 10)] = [digit_char (m' div 10), digit_char (m' mod 10)]
     \<longleftrightarrow> m = m'"
proof
  assume eq: "[digit_char (m div 10), digit_char (m mod 10)] = [digit_char (m' div 10), digit_char (m' mod 10)]"
  show "m = m'"
  proof (rule ccontr)
    assume "m \<noteq> m'"
    then consider "m < m'" | "m' < m" by linarith
    then show False
    proof cases
      case 1
      with key2_less [OF assms] eq show False by simp
    next
      case 2
      with key2_less [OF assms(2,1)] eq show False by simp
    qed
  qed
qed simp

lemma two_digit_split:
  fixes y :: nat
  shows "y div 1000 = y div 100 div 10" "y div 10 mod 10 = y mod 100 div 10"
    "y mod 10 = y mod 100 mod 10"
proof -
  show "y div 1000 = y div 100 div 10" by (simp add: div_mult2_eq)
  have "y mod 100 = 10 * (y div 10 mod 10) + y mod 10"
    using mod_mult2_eq [of y 10 10] by simp
  then show "y div 10 mod 10 = y mod 100 div 10" by simp
  show "y mod 10 = y mod 100 mod 10" by (simp add: mod_mod_cancel)
qed

lemma key4_less:
  assumes "y < 10000" "y' < 10000"
  shows "[digit_char (y div 1000), digit_char (y div 100 mod 10), digit_char (y div 10 mod 10),
          digit_char (y mod 10)]
       < [digit_char (y' div 1000), digit_char (y' div 100 mod 10), digit_char (y' div 10 mod 10),
          digit_char (y' mod 10)]
     \<longleftrightarrow> y < y'"
proof -
  define h l h' l' where "h = y div 100" and "l = y mod 100" and "h' = y' div 100"
    and "l' = y' mod 100"
  from assms have r: "h < 100" "h' < 100" "l < 100" "l' < 100"
    by (simp_all add: h_def l_def h'_def l'_def)
  have e: "y = 100 * h + l" "y' = 100 * h' + l'"
    by (simp_all add: h_def l_def h'_def l'_def)
  have dg: "y div 1000 = h div 10" "y div 100 mod 10 = h mod 10" "y div 10 mod 10 = l div 10"
    "y mod 10 = l mod 10"
    "y' div 1000 = h' div 10" "y' div 100 mod 10 = h' mod 10" "y' div 10 mod 10 = l' div 10"
    "y' mod 10 = l' mod 10"
    unfolding h_def l_def h'_def l'_def
    by (rule two_digit_split refl)+
  have "[digit_char (h div 10), digit_char (h mod 10), digit_char (l div 10), digit_char (l mod 10)]
        < [digit_char (h' div 10), digit_char (h' mod 10), digit_char (l' div 10), digit_char (l' mod 10)]
      \<longleftrightarrow> [digit_char (h div 10), digit_char (h mod 10)] < [digit_char (h' div 10), digit_char (h' mod 10)]
         \<or> ([digit_char (h div 10), digit_char (h mod 10)] = [digit_char (h' div 10), digit_char (h' mod 10)]
            \<and> [digit_char (l div 10), digit_char (l mod 10)] < [digit_char (l' div 10), digit_char (l' mod 10)])"
    by auto
  also have "\<dots> \<longleftrightarrow> h < h' \<or> (h = h' \<and> l < l')"
    by (simp only: key2_less [OF r(1,2)] key2_eq [OF r(1,2)] key2_less [OF r(3,4)])
  also have "\<dots> \<longleftrightarrow> y < y'"
    unfolding e using r by auto
  finally show ?thesis
    by (simp only: dg)
qed

lemma key4_eq:
  assumes "y < 10000" "y' < 10000"
  shows "[digit_char (y div 1000), digit_char (y div 100 mod 10), digit_char (y div 10 mod 10),
          digit_char (y mod 10)]
       = [digit_char (y' div 1000), digit_char (y' div 100 mod 10), digit_char (y' div 10 mod 10),
          digit_char (y' mod 10)]
     \<longleftrightarrow> y = y'"
proof
  assume eq: "[digit_char (y div 1000), digit_char (y div 100 mod 10), digit_char (y div 10 mod 10),
          digit_char (y mod 10)]
       = [digit_char (y' div 1000), digit_char (y' div 100 mod 10), digit_char (y' div 10 mod 10),
          digit_char (y' mod 10)]"
  show "y = y'"
  proof (rule ccontr)
    assume "y \<noteq> y'"
    then consider "y < y'" | "y' < y" by linarith
    then show False
    proof cases
      case 1
      with key4_less [OF assms] eq show False by simp
    next
      case 2
      with key4_less [OF assms(2,1)] eq show False by simp
    qed
  qed
qed simp

lemma iso_date_less:
  assumes "y < 10000" "m < 100" "d < 100" "y' < 10000" "m' < 100" "d' < 100"
  shows "iso_date y m d < iso_date y' m' d' \<longleftrightarrow> date_less (y, m, d) (y', m', d')"
proof -
  let ?Y = "[digit_char (y div 1000), digit_char (y div 100 mod 10), digit_char (y div 10 mod 10),
          digit_char (y mod 10)]"
  let ?Y' = "[digit_char (y' div 1000), digit_char (y' div 100 mod 10), digit_char (y' div 10 mod 10),
          digit_char (y' mod 10)]"
  let ?M = "[digit_char (m div 10), digit_char (m mod 10)]"
  let ?M' = "[digit_char (m' div 10), digit_char (m' mod 10)]"
  let ?D = "[digit_char (d div 10), digit_char (d mod 10)]"
  let ?D' = "[digit_char (d' div 10), digit_char (d' mod 10)]"
  have "iso_date y m d < iso_date y' m' d'
      \<longleftrightarrow> ?Y < ?Y' \<or> (?Y = ?Y' \<and> (?M < ?M' \<or> (?M = ?M' \<and> ?D < ?D')))"
    unfolding iso_date_def zfill4 [OF assms(1)] zfill4 [OF assms(4)] zfill2 [OF assms(2)]
      zfill2 [OF assms(3)] zfill2 [OF assms(5)] zfill2 [OF assms(6)]
    by auto
  also have "\<dots> \<longleftrightarrow> y < y' \<or> (y = y' \<and> (m < m' \<or> (m = m' \<and> d < d')))"
    by (simp only: key4_less [OF assms(1,4)] key4_eq [OF assms(1,4)] key2_less [OF assms(2,5)]
        key2_eq [OF assms(2,5)] key2_less [OF assms(3,6)])
  finally show ?thesis by (simp add: date_less_def)
qed

lemma valid_date_small: "valid_date y m d \<Longrightarrow> y < 10000 \<and> m < 100 \<and> d < 100"
  using days_in_month_pos [of m y] by (auto simp: valid_date_def)

lemma iso_date_le_ordinal:
  assumes "valid_date y m d" "valid_date y' m' d'"
  shows "iso_date y m d \<le> iso_date y' m' d' \<longleftrightarrow> ymd2ord y m d \<le> ymd2ord y' m' d'"
proof -
  from valid_date_small [OF assms(1)] valid_date_small [OF assms(2)]
  have "iso_date y' m' d' < iso_date y m d \<longleftrightarrow> date_less (y', m', d') (y, m, d)"
    by (intro iso_date_less) simp_all
  also have "\<dots> \<longleftrightarrow> ymd2ord y' m' d' < ymd2ord y m d"
    by (rule ymd2ord_less_iff [OF assms(2,1), symmetric])
  finally show ?thesis by (simp add: not_less [symmetric])
qed

lemma days_before_year_digits:
  assumes "0 \<le> a" "0 \<le> b" "b \<le> 3" "0 \<le> c" "c \<le> 24" "0 \<le> e" "e \<le> 3"
  shows "days_before_year (nat (400 * a + 100 * b + 4 * c + e + 1))
       = 146097 * a + 36524 * b + 1461 * c + 365 * e"
proof -
  let ?p = "400 * a + 100 * b + 4 * c + e"
  from assms have p0: "0 \<le> ?p" by simp
  have d4: "?p div 4 = 100 * a + 25 * b + c"
    using assms by (intro int_div_pos_eq [where r = e]) simp_all
  have d100: "?p div 100 = 4 * a + b"
    using assms by (intro int_div_pos_eq [where r = "4 * c + e"]) simp_all
  have d400: "?p div 400 = a"
    using assms by (intro int_div_pos_eq [where r = "100 * b + 4 * c + e"]) simp_all
  from p0 have "int (nat (?p + 1)) - 1 = ?p" by simp
  then show ?thesis
    unfolding days_before_year_def Let_def by (simp add: d4 d100 d400)
qed

lemma is_leap_nat:
  "0 \<le> y \<Longrightarrow> is_leap (nat y) \<longleftrightarrow> y mod 4 = 0 \<and> (y mod 100 \<noteq> 0 \<or> y mod 400 = 0)"
  using int_mod_eq_0 [of "nat y"] by (simp add: is_leap_def)

lemma is_leap_digits:
  assumes "0 \<le> a" "0 \<le> b" "b \<le> 3" "0 \<le> c" "c \<le> 24" "0 \<le> e" "e \<le> 3"
  shows "is_leap (nat (400 * a + 100 * b + 4 * c + e + 1)) \<longleftrightarrow> e = 3 \<and> (c \<noteq> 24 \<or> b = 3)"
proof -
  define y where "y = 400 * a + 100 * b + 4 * c + e + 1"
  from assms have y0: "0 \<le> y" by (simp add: y_def)
  note L = is_leap_nat [OF y0]
  have "is_leap (nat y) \<longleftrightarrow> e = 3 \<and> (c \<noteq> 24 \<or> b = 3)"
  proof (cases "e = 3")
    case False
    with assms have "y mod 4 = e + 1"
      unfolding y_def by (intro int_mod_pos_eq [where q = "100 * a + 25 * b + c"]) simp_all
    with False assms show ?thesis by (simp add: L)
  next
    case True
    then have m4: "y mod 4 = 0"
      unfolding y_def by (intro int_mod_pos_eq [where q = "100 * a + 25 * b + c + 1"]) simp_all
    show ?thesis
    proof (cases "c = 24")
      case False
      with assms True have "y mod 100 = 4 * (c + 1)"
        unfolding y_def by (intro int_mod_pos_eq [where q = "4 * a + b"]) simp_all
      with False assms True m4 show ?thesis by (simp add: L)
    next
      case c: True
      with True have m100: "y mod 100 = 0"
        unfolding y_def by (intro int_mod_pos_eq [where q = "4 * a + b + 1"]) simp_all
      show ?thesis
      proof (cases "b = 3")
        case True
        with c \<open>e = 3\<close> have "y mod 400 = 0"
          unfolding y_def by (intro int_mod_pos_eq [where q = "a + 1"]) simp_all
        with True c \<open>e = 3\<close> m4 show ?thesis by (simp add: L)
      next
        case False
        with assms c \<open>e = 3\<close> have "y mod 400 = 100 * (b + 1)"
          unfolding y_def by (intro int_mod_pos_eq [where q = a]) simp_all
        with False assms c \<open>e = 3\<close> m4 m100 show ?thesis by (simp add: L)
      qed
    qed
  qed
  then show ?thesis unfolding y_def .
qed

lemma month_day_ok:
  fixes r :: int
  assumes "0 \<le> r" "r < 365"
  shows "case (let mo = nat ((r + 50) div 32);
                   preceding = DAYS_BEFORE_MONTH ! mo + (if mo > 2 \<and> leapyear then 1 else 0)
               in if preceding > r
                  then let mo' = mo - 1;
                           preceding' = preceding - (DAYS_IN_MONTH ! mo' + (if mo' = 2 \<and> leapyear then 1 else 0))
                       in (mo', nat (r - preceding' + 1))
                  else (mo, nat (r - preceding + 1)))
         of (m, d) \<Rightarrow>
           1 \<le> m \<and> m \<le> 12 \<and> 1 \<le> d
           \<and> int d \<le> DAYS_IN_MONTH ! m + (if m = 2 \<and> leapyear then 1 else 0)
           \<and> DAYS_BEFORE_MONTH ! m + (if m > 2 \<and> leapyear then 1 else 0) + int d = r + 1"
proof -
  define q where "q = (r + 50) div 32"
  have b: "32 * q \<le> r + 50" "r + 50 < 32 * q + 32"
    unfolding q_def by presburger+
  with assms have "1 \<le> q" "q \<le> 12" by linarith+
  then have "q \<in> {1, 2, 3, 4, 5, 6, 7, 8, 9, 10, 11, 12}"
    by simp arith
  then show ?thesis
    unfolding Let_def q_def [symmetric]
    using b assms
    by (elim insertE emptyE) (auto simp: DAYS_BEFORE_MONTH_def DAYS_IN_MONTH_def)
qed

lemma days_tables:
  "1 \<le> m \<Longrightarrow> m \<le> 12 \<Longrightarrow>
     DAYS_IN_MONTH ! m + (if m = 2 \<and> is_leap y then 1 else 0) = int (days_in_month y m)"
  "DAYS_BEFORE_MONTH ! m + (if m > 2 \<and> is_leap y then 1 else 0) = days_before_month y m"
  using month_cases [of m]
  by (auto simp: days_in_month_def DAYS_IN_MONTH_def days_before_month_def)

lemma month_day_ok_named:
  fixes r :: int
  assumes "0 \<le> r" "r < 365"
    and mo: "mo = nat ((r + 50) div 32)"
    and pr: "preceding = DAYS_BEFORE_MONTH ! mo + (if mo > 2 \<and> leapyear then 1 else 0)"
    and md: "(m, d) = (if preceding > r
                then (mo - 1, nat (r - (preceding - (DAYS_IN_MONTH ! (mo - 1)
                                     + (if mo - 1 = 2 \<and> leapyear then 1 else 0))) + 1))
                else (mo, nat (r - preceding + 1)))"
  shows "1 \<le> m \<and> m \<le> 12 \<and> 1 \<le> d
       \<and> int d \<le> DAYS_IN_MONTH ! m + (if m = 2 \<and> leapyear then 1 else 0)
       \<and> DAYS_BEFORE_MONTH ! m + (if m > 2 \<and> leapyear then 1 else 0) + int d = r + 1"
  using month_day_ok [OF assms(1,2), of leapyear]
  unfolding Let_def mo [symmetric] pr [symmetric] md [symmetric] prod.case .

lemma ord2ymd_correct:
  assumes "1 \<le> n" and "ord2ymd n = (y, m, d)"
  shows "1 \<le> y \<and> 1 \<le> m \<and> m \<le> 12 \<and> 1 \<le> d \<and> d \<le> days_in_month y m \<and> ymd2ord y m d = n"
proof -
  define n400 where "n400 = (n - 1) div 146097"
  define r400 where "r400 = (n - 1) mod 146097"
  define n100 where "n100 = r400 div 36524"
  define r100 where "r100 = r400 mod 36524"
  define n4 where "n4 = r100 div 1461"
  define r4 where "r4 = r100 mod 1461"
  define n1 where "n1 = r4 div 365"
  define r1 where "r1 = r4 mod 365"
  define leapyear where "leapyear = (n1 = 3 \<and> (n4 \<noteq> 24 \<or> n100 = 3))"
  define mo where "mo = nat ((r1 + 50) div 32)"
  define preceding where
    "preceding = DAYS_BEFORE_MONTH ! mo + (if mo > 2 \<and> leapyear then 1 else 0)"
  define Y where "Y = n400 * 400 + 1 + n100 * 100 + n4 * 4 + n1"
  have e400: "n - 1 = 146097 * n400 + r400" and b400: "0 \<le> r400" "r400 < 146097"
    unfolding n400_def r400_def by simp_all
  have e100: "r400 = 36524 * n100 + r100" and b100: "0 \<le> r100" "r100 < 36524"
    unfolding n100_def r100_def by simp_all
  have e4: "r100 = 1461 * n4 + r4" and b4: "0 \<le> r4" "r4 < 1461"
    unfolding n4_def r4_def by simp_all
  have e1: "r4 = 365 * n1 + r1" and b1: "0 \<le> r1" "r1 < 365"
    unfolding n1_def r1_def by simp_all
  from assms(1) have p400: "0 \<le> n400" unfolding n400_def by simp
  from b400 have p100: "0 \<le> n100" "n100 \<le> 4" unfolding n100_def by simp_all
  from b100 have p4: "0 \<le> n4" "n4 \<le> 24" unfolding n4_def by simp_all
  from b4 have p1: "0 \<le> n1" "n1 \<le> 4" unfolding n1_def by simp_all
  have o: "ord2ymd n =
     (if n1 = 4 \<or> n100 = 4 then (nat (Y - 1), 12, 31)
      else if preceding > r1
           then (nat Y, mo - 1,
                 nat (r1 - (preceding - (DAYS_IN_MONTH ! (mo - 1)
                              + (if mo - 1 = 2 \<and> leapyear then 1 else 0))) + 1))
           else (nat Y, mo, nat (r1 - preceding + 1)))"
    unfolding ord2ymd_def n400_def r400_def n100_def r100_def n4_def r4_def n1_def r1_def Let_def
      leapyear_def mo_def preceding_def Y_def
    by (rule refl)
  show ?thesis
  proof (cases "n1 = 4 \<or> n100 = 4")
    case True
    define c e b where "c = (if n100 = 4 then 24 else n4)" and "e = (3::int)"
      and "b = (if n100 = 4 then 3 else n100)"
    have ranges: "0 \<le> b" "b \<le> 3" "0 \<le> c" "c \<le> 24" "0 \<le> e" "e \<le> 3"
      using p100 p4 by (auto simp: b_def c_def e_def)
    have yr: "Y - 1 = 400 * n400 + 100 * b + 4 * c + e + 1"
      and ord: "n = 146097 * n400 + 36524 * b + 1461 * c + 365 * e + 366"
      and leap: "c \<noteq> 24 \<or> b = 3"
      using True e400 b400 e100 b100 e4 b4 e1 b1 p100 p4 p1
      by (auto simp: b_def c_def e_def Y_def)
    from o True assms(2) have "(nat (Y - 1), 12, 31) = (y, m, d)"
      by (simp only: if_True)
    then have res: "y = nat (400 * n400 + 100 * b + 4 * c + e + 1)" "m = 12" "d = 31"
      by (simp_all only: yr prod.inject)
    have e3: "e = 3" by (simp add: e_def)
    have rhs: "e = 3 \<and> (c \<noteq> 24 \<or> b = 3)" using e3 leap by simp
    have L: "is_leap y"
      unfolding res(1) using is_leap_digits [OF p400 ranges] rhs by (rule iffD2)
    have dby: "days_before_year y = 146097 * n400 + 36524 * b + 1461 * c + 365 * e"
      unfolding res(1) by (rule days_before_year_digits [OF p400 ranges])
    have y1: "1 \<le> y" unfolding res(1) using p400 ranges by simp
    have "ymd2ord y 12 31 = n"
      using L by (simp add: ymd2ord_def dby ord days_before_month_def DAYS_BEFORE_MONTH_def)
    moreover have "days_in_month y 12 = 31" by (simp add: days_in_month_def)
    ultimately show ?thesis using y1 by (simp add: res(2,3))
  next
    case False
    with p100 p1 have r3: "n100 \<le> 3" "n1 \<le> 3" by simp_all
    have yr: "Y = 400 * n400 + 100 * n100 + 4 * n4 + n1 + 1"
      by (simp add: Y_def)
    note rg = p400 p100(1) r3(1) p4 p1(1) r3(2)
    from o False assms(2) have o2: "(if preceding > r1
           then (nat Y, mo - 1,
                 nat (r1 - (preceding - (DAYS_IN_MONTH ! (mo - 1)
                              + (if mo - 1 = 2 \<and> leapyear then 1 else 0))) + 1))
           else (nat Y, mo, nat (r1 - preceding + 1))) = (y, m, d)"
      by (simp only: if_False)
    have yv: "y = nat (400 * n400 + 100 * n100 + 4 * n4 + n1 + 1)"
      and md: "(m, d) = (if preceding > r1
                then (mo - 1, nat (r1 - (preceding - (DAYS_IN_MONTH ! (mo - 1)
                                     + (if mo - 1 = 2 \<and> leapyear then 1 else 0))) + 1))
                else (mo, nat (r1 - preceding + 1)))"
      using o2 by (cases "preceding > r1"; simp only: if_True if_False prod.inject yr; simp)+
    have L: "is_leap y = leapyear"
      unfolding yv leapyear_def by (rule is_leap_digits [OF rg])
    have dby: "days_before_year y = 146097 * n400 + 36524 * n100 + 1461 * n4 + 365 * n1"
      unfolding yv by (rule days_before_year_digits [OF rg])
    from month_day_ok_named [OF b1 mo_def preceding_def md]
    have k: "1 \<le> m \<and> m \<le> 12 \<and> 1 \<le> d
           \<and> int d \<le> DAYS_IN_MONTH ! m + (if m = 2 \<and> leapyear then 1 else 0)
           \<and> DAYS_BEFORE_MONTH ! m + (if m > 2 \<and> leapyear then 1 else 0) + int d = r1 + 1" .
    then have mm: "1 \<le> m" "m \<le> 12" by simp_all
    from k have "int d \<le> int (days_in_month y m)" and dm: "days_before_month y m + int d = r1 + 1"
      unfolding L [symmetric] days_tables(1) [OF mm] days_tables(2) by simp_all
    moreover have "1 \<le> y" unfolding yv using rg by simp
    moreover have "ymd2ord y m d = n"
      using dm dby e400 e100 e4 e1 by (simp add: ymd2ord_def)
    ultimately show ?thesis using k by simp
  qed
qed

subsection \<open>Pruning\<close>

lemma map_of_filter_key:
  "map_of (filter (\<lambda>(k, v). P k) xs) k' = (if P k' then map_of xs k' else None)"
  by (induction xs) auto

lemma days_before_year_nonneg: "1 \<le> y \<Longrightarrow> 0 \<le> days_before_year y"
  using days_before_year_mono_strict [of 1 y]
  by (cases "y = 1") (auto simp: days_before_year_def is_leap_def)

lemma ymd2ord_bounds:
  assumes "valid_date y m d"
  shows "1 \<le> ymd2ord y m d" "ymd2ord y m d \<le> MAXORDINAL"
proof -
  from assms have v: "1 \<le> y" "1 \<le> m" "m \<le> 12" "1 \<le> d" by (simp_all add: valid_date_def)
  from days_before_year_nonneg [OF v(1)] days_before_month_bounds [OF v(2,3), of y] v(4)
  show "1 \<le> ymd2ord y m d" by (simp add: ymd2ord_def)
  have last: "valid_date 9999 12 31"
    by (simp add: valid_date_def days_in_month_def)
  have "\<not> date_less (9999, 12, 31) (y, m, d)"
    using assms days_in_month_pos [OF v(2,3), of y] by (auto simp: date_less_def valid_date_def)
  with ymd2ord_le_iff [OF assms last] have "ymd2ord y m d \<le> ymd2ord 9999 12 31" by simp
  also have "ymd2ord 9999 12 31 = MAXORDINAL"
    by (simp add: ymd2ord_def days_before_year_def days_before_month_def DAYS_BEFORE_MONTH_def
        is_leap_def MAXORDINAL_def)
  finally show "ymd2ord y m d \<le> MAXORDINAL" .
qed

lemma ord2ymd_valid:
  assumes "1 \<le> n" "n \<le> MAXORDINAL" "ord2ymd n = (y, m, d)"
  shows "valid_date y m d \<and> ymd2ord y m d = n"
proof -
  from ord2ymd_correct [OF assms(1,3)]
  have c: "1 \<le> y" "1 \<le> m" "m \<le> 12" "1 \<le> d" "d \<le> days_in_month y m" "ymd2ord y m d = n"
    by simp_all
  have "y \<le> 9999"
  proof (rule ccontr)
    assume "\<not> y \<le> 9999"
    then have "9999 < y" by simp
    from days_before_year_mono_strict [OF this]
    have "3652059 \<le> days_before_year y"
      by (simp add: days_before_year_def is_leap_def)
    with days_before_month_bounds [OF c(2,3), of y] c(4) have "3652059 < ymd2ord y m d"
      by (simp add: ymd2ord_def)
    with c(6) assms(2) show False by (simp add: MAXORDINAL_def)
  qed
  with c show ?thesis by (simp add: valid_date_def)
qed

lemma minus_days_ok:
  assumes "valid_date (year t) (month t) (day t)" "0 \<le> k" "k < toordinal t"
  shows "\<exists>y m d. minus_days t k = Inr (t\<lparr>year := y, month := m, day := d\<rparr>)
           \<and> valid_date y m d \<and> ymd2ord y m d = toordinal t - k"
proof -
  obtain y m d where o: "ord2ymd (toordinal t - k) = (y, m, d)"
    by (cases "ord2ymd (toordinal t - k)") auto
  from ymd2ord_bounds [OF assms(1)] assms(2,3)
  have r: "1 \<le> toordinal t - k" "toordinal t - k \<le> MAXORDINAL"
    by (simp_all add: toordinal_def)
  from o r have "minus_days t k = Inr (t\<lparr>year := y, month := m, day := d\<rparr>)"
    by (simp add: minus_days_def Let_def)
  with ord2ymd_valid [OF r o] show ?thesis by blast
qed

lemma track_usage_ok:
  assumes g: "get_analytics_data config = JDict a"
    and tu: "dict_get_default a ''total_uses'' (JInt 0) = JInt n"
    and du: "dict_get_default a ''daily_usage'' (JDict []) = JDict du"
    and cnt: "dict_get_default du (strftime_ymd year_text now) (JInt 0) = JInt c"
    and md: "minus_days now_cleanup 90 = Inr cutoff_date"
  shows "track_usage year_text now now_cleanup config =
     Inr (save_analytics_data
            (dict_set ''daily_usage''
               (JDict (filter (\<lambda>(date, count). strftime_ymd year_text cutoff_date \<le> date)
                         (dict_set (strftime_ymd year_text now) (JInt (c + 1)) du)))
               (dict_set ''last_used_date'' (JStr (strftime_ymd year_text now))
                  (dict_set ''daily_usage''
                     (JDict (dict_set (strftime_ymd year_text now) (JInt (c + 1)) du))
                     (dict_set ''total_uses'' (JInt (n + 1)) a))))
            config)"
proof -
  have du1: "dict_get_default (dict_set ''total_uses'' (JInt (n + 1)) a) ''daily_usage'' (JDict []) = JDict du"
    using du by (simp add: dict_get_default_dict_set)
  have m3: "map_of (dict_set ''last_used_date'' (JStr (strftime_ymd year_text now))
                  (dict_set ''daily_usage''
                     (JDict (dict_set (strftime_ymd year_text now) (JInt (c + 1)) du))
                     (dict_set ''total_uses'' (JInt (n + 1)) a))) ''daily_usage''
            = Some (JDict (dict_set (strftime_ymd year_text now) (JInt (c + 1)) du))"
    by (simp add: dict_set_def update_conv')
  show ?thesis
    unfolding track_usage_def with_analytics_dict [OF g] Let_def
    by (simp add: tu du1 cnt cleanup_old_daily_data_def m3 md Let_def)
qed

text \<open>
  From the year 1000 on the year has four digits of its own, so every rendering of \<open>%Y\<close>
  that prints the decimal digits of such a year gives the zero-filled spelling.
\<close>

lemma zfill4_four_digits: "1000 \<le> y \<Longrightarrow> y \<le> 9999 \<Longrightarrow> zfill 4 (str_nat y) = str_nat y"
  using zfill4 [of y] str_nat4 [of y] by simp

lemma strftime_ymd_iso_date:
  assumes "\<forall>y. 1000 \<le> y \<and> y \<le> 9999 \<longrightarrow> year_text y = str_nat y"
    and "1000 \<le> year t" "year t \<le> 9999"
  shows "strftime_ymd year_text t = iso_date (year t) (month t) (day t)"
  using assms by (simp add: strftime_ymd_def iso_date_def zfill4_four_digits)

lemma first_four_digit_day:
  "valid_date 1000 1 1" "ymd2ord 1000 1 1 = 364878"
  by (simp_all add: valid_date_def days_in_month_def is_leap_def DAYS_IN_MONTH_def
      ymd2ord_def days_before_year_def days_before_month_def DAYS_BEFORE_MONTH_def)

lemma four_digit_year:
  assumes "valid_date y m d" "ymd2ord 1000 1 1 \<le> ymd2ord y m d"
  shows "1000 \<le> y" "y \<le> 9999"
proof -
  from ymd2ord_le_iff [OF first_four_digit_day(1) assms(1)] assms(2)
  have "\<not> date_less (y, m, d) (1000, 1, 1)" by simp
  then show "1000 \<le> y" by (auto simp: date_less_def)
  from assms(1) show "y \<le> 9999" by (simp add: valid_date_def)
qed

text \<open>
  Claim C2. On a record whose \<open>total_uses\<close> is an integer (or missing) and whose
  \<open>daily_usage\<close> is a dictionary (or missing) with an integer count (or none) for today,
  \<open>track_usage\<close> on date D succeeds, adds 1 to \<open>total_uses\<close>, adds 1 to today's count
  (1 when there was none), stores D as \<open>last_used_date\<close> and leaves every other field
  alone. Of the keys that spell a date: those before D minus 90 days are gone, those on
  or after that day keep their count (today's key apart, which was just raised).
  This holds when D minus 90 days is 1000-01-01 or later, so that the cut-off and D have a
  four-digit year, which \<open>%Y\<close> prints as its decimal digits on every platform; for an
  earlier cut-off the comparison of the strings depends on how the platform prints the
  year.
\<close>

theorem track_usage_prunes:
  assumes g: "get_analytics_data config = JDict a"
    and v: "valid_datetime now"
    and same: "date_of now_cleanup = date_of now"
    and r: "ymd2ord 1000 1 1 \<le> toordinal now - 90"
    and yt: "\<forall>y. 1000 \<le> y \<and> y \<le> 9999 \<longrightarrow> year_text y = str_nat y"
    and tu: "dict_get_default a ''total_uses'' (JInt 0) = JInt n"
    and du: "dict_get_default a ''daily_usage'' (JDict []) = JDict du"
    and cnt: "dict_get_default du (strftime_ymd year_text now) (JInt 0) = JInt c"
  shows "\<exists>config' du'. track_usage year_text now now_cleanup config = Inr config'
     \<and> field ''total_uses'' config' = JInt (n + 1)
     \<and> field ''last_used_date'' config' = JStr (strftime_ymd year_text now)
     \<and> field ''daily_usage'' config' = JDict du'
     \<and> map_of du' (strftime_ymd year_text now) = Some (JInt (c + 1))
     \<and> (\<forall>y m d. valid_date y m d \<and> ymd2ord y m d < toordinal now - 90
            \<longrightarrow> map_of du' (iso_date y m d) = None)
     \<and> (\<forall>y m d. valid_date y m d \<and> toordinal now - 90 \<le> ymd2ord y m d
              \<and> iso_date y m d \<noteq> strftime_ymd year_text now
            \<longrightarrow> map_of du' (iso_date y m d) = map_of du (iso_date y m d))
     \<and> (\<forall>k. k \<noteq> ''total_uses'' \<and> k \<noteq> ''daily_usage'' \<and> k \<noteq> ''last_used_date''
            \<longrightarrow> field k config' = field k config)
     \<and> (\<forall>k. k \<noteq> ''analytics'' \<longrightarrow> map_of config' k = map_of config k)"
proof -
  from v have vd: "valid_date (year now) (month now) (day now)"
    by (simp add: valid_datetime_def)
  from same have f: "year now_cleanup = year now" "month now_cleanup = month now"
    "day now_cleanup = day now"
    by (simp_all add: date_of_def)
  then have tc: "toordinal now_cleanup = toordinal now" by (simp add: toordinal_def)
  from vd f have vc: "valid_date (year now_cleanup) (month now_cleanup) (day now_cleanup)"
    by simp
  from r first_four_digit_day(2) have r90: "90 < toordinal now" by simp
  from minus_days_ok [OF vc, of 90] r90 tc
  obtain yc mc dc where md: "minus_days now_cleanup 90 = Inr (now_cleanup\<lparr>year := yc, month := mc, day := dc\<rparr>)"
    and vcut: "valid_date yc mc dc" and oc: "ymd2ord yc mc dc = toordinal now - 90"
    by auto
  from r oc have "ymd2ord 1000 1 1 \<le> ymd2ord yc mc dc" by simp
  from four_digit_year [OF vcut this] have yc: "1000 \<le> yc" "yc \<le> 9999" .
  from r have "ymd2ord 1000 1 1 \<le> ymd2ord (year now) (month now) (day now)"
    by (simp add: toordinal_def)
  from four_digit_year [OF vd this] have yn: "1000 \<le> year now" "year now \<le> 9999" .
  let ?today = "strftime_ymd year_text now"
  let ?cut = "strftime_ymd year_text (now_cleanup\<lparr>year := yc, month := mc, day := dc\<rparr>)"
  have cut: "?cut = iso_date yc mc dc"
    using yc by (simp add: strftime_ymd_iso_date [OF yt])
  have today_iso: "?today = iso_date (year now) (month now) (day now)"
    using yn by (rule strftime_ymd_iso_date [OF yt])
  let ?du1 = "dict_set ?today (JInt (c + 1)) du"
  let ?du' = "filter (\<lambda>(date, count). ?cut \<le> date) ?du1"
  let ?a' = "dict_set ''daily_usage'' (JDict ?du')
               (dict_set ''last_used_date'' (JStr ?today)
                  (dict_set ''daily_usage'' (JDict ?du1)
                     (dict_set ''total_uses'' (JInt (n + 1)) a)))"
  have res: "track_usage year_text now now_cleanup config = Inr (save_analytics_data ?a' config)"
    by (rule track_usage_ok [OF g tu du cnt md])
  have look: "map_of ?du' k = (if ?cut \<le> k then (if k = ?today then Some (JInt (c + 1)) else map_of du k) else None)"
    for k
    by (simp add: map_of_filter_key dict_set_def update_conv')
  have ord: "?cut \<le> iso_date y m d \<longleftrightarrow> toordinal now - 90 \<le> ymd2ord y m d"
    if "valid_date y m d" for y m d
    unfolding cut using iso_date_le_ordinal [OF vcut that] by (simp add: oc)
  have "?cut \<le> iso_date (year now) (month now) (day now)"
    using ord [OF vd] by (simp add: toordinal_def)
  then have today: "?cut \<le> ?today" by (simp only: today_iso)
  have 1: "map_of ?du' ?today = Some (JInt (c + 1))"
    using today by (simp add: look)
  have 2: "\<forall>y m d. valid_date y m d \<and> ymd2ord y m d < toordinal now - 90
            \<longrightarrow> map_of ?du' (iso_date y m d) = None"
    using ord by (auto simp: look)
  have 3: "\<forall>y m d. valid_date y m d \<and> toordinal now - 90 \<le> ymd2ord y m d
              \<and> iso_date y m d \<noteq> ?today
            \<longrightarrow> map_of ?du' (iso_date y m d) = map_of du (iso_date y m d)"
    using ord by (auto simp: look)
  have 4: "field ''total_uses'' (save_analytics_data ?a' config) = JInt (n + 1)"
    "field ''last_used_date'' (save_analytics_data ?a' config) = JStr ?today"
    "field ''daily_usage'' (save_analytics_data ?a' config) = JDict ?du'"
    by (simp_all add: field_saved dict_get_dict_set)
  have 5: "\<forall>k. k \<noteq> ''total_uses'' \<and> k \<noteq> ''daily_usage'' \<and> k \<noteq> ''last_used_date''
            \<longrightarrow> field k (save_analytics_data ?a' config) = field k config"
    using g by (simp add: field_saved dict_get_dict_set field_dict)
  have 6: "\<forall>k. k \<noteq> ''analytics'' \<longrightarrow> map_of (save_analytics_data ?a' config) k = map_of config k"
    by (simp add: map_of_saved)
  show ?thesis
    apply (rule exI [of _ "save_analytics_data ?a' config"])
    apply (rule exI [of _ "?du'"])
    using res 1 2 3 4 5 6 apply (intro conjI)
    apply assumption+
    done
qed

lemma sample_now_facts:
  "valid_datetime sample_now" "toordinal sample_now = 739923"
  "strftime_ymd year_unpadded sample_now = ''2026-11-03''"
  by (simp_all add: valid_datetime_def valid_date_def days_in_month_def is_leap_def sample_now_def
      toordinal_def ymd2ord_def days_before_year_def days_before_month_def DAYS_BEFORE_MONTH_def
      format_eval)

lemma august_facts:
  "valid_date 2026 8 4" "valid_date 2026 8 5" "ymd2ord 2026 8 4 = 739832" "ymd2ord 2026 8 5 = 739833"
  "iso_date 2026 8 4 = ''2026-08-04''" "iso_date 2026 8 5 = ''2026-08-05''"
  by (simp_all add: valid_date_def days_in_month_def is_leap_def
      ymd2ord_def days_before_year_def days_before_month_def DAYS_BEFORE_MONTH_def format_eval)

theorem track_usage_prunes_witness:
  "\<exists>config' du'. track_usage year_unpadded sample_now sample_now sample_usage_config = Inr config'
     \<and> field ''total_uses'' config' = JInt 8
     \<and> field ''last_used_date'' config' = JStr ''2026-11-03''
     \<and> field ''daily_usage'' config' = JDict du'
     \<and> map_of du' ''2026-11-03'' = Some (JInt 1)
     \<and> map_of du' ''2026-08-04'' = None
     \<and> map_of du' ''2026-08-05'' = Some (JInt 4)"
proof -
  let ?a = "[(''total_uses'', JInt 7),
              (''daily_usage'', JDict [(''2026-08-04'', JInt 3), (''2026-08-05'', JInt 4)])]"
  let ?du = "[(''2026-08-04'', JInt 3), (''2026-08-05'', JInt 4)]"
  have g: "get_analytics_data sample_usage_config = JDict ?a"
    by (simp add: sample_usage_config_def gad1)
  have r: "ymd2ord 1000 1 1 \<le> toordinal sample_now - 90"
    using first_four_digit_day(2) by (simp add: sample_now_facts)
  have yt: "\<forall>y. 1000 \<le> y \<and> y \<le> 9999 \<longrightarrow> year_unpadded y = str_nat y"
    by (simp add: year_unpadded_def)
  have tu: "dict_get_default ?a ''total_uses'' (JInt 0) = JInt 7"
    and du: "dict_get_default ?a ''daily_usage'' (JDict []) = JDict ?du"
    and cnt: "dict_get_default ?du (strftime_ymd year_unpadded sample_now) (JInt 0) = JInt 0"
    by (simp_all add: dict_get_default_def sample_now_facts)
  from track_usage_prunes [OF g sample_now_facts(1) refl r yt tu du cnt]
  show ?thesis
  proof (elim exE conjE)
    fix config' du'
    assume t: "track_usage year_unpadded sample_now sample_now sample_usage_config = Inr config'"
      "field ''total_uses'' config' = JInt (7 + 1)"
      "field ''last_used_date'' config' = JStr (strftime_ymd year_unpadded sample_now)"
      "field ''daily_usage'' config' = JDict du'"
      "map_of du' (strftime_ymd year_unpadded sample_now) = Some (JInt (0 + 1))"
      and old: "\<forall>y m d. valid_date y m d \<and> ymd2ord y m d < toordinal sample_now - 90
            \<longrightarrow> map_of du' (iso_date y m d) = None"
      and kept: "\<forall>y m d. valid_date y m d \<and> toordinal sample_now - 90 \<le> ymd2ord y m d
              \<and> iso_date y m d \<noteq> strftime_ymd year_unpadded sample_now
            \<longrightarrow> map_of du' (iso_date y m d) = map_of ?du (iso_date y m d)"
    from old [rule_format, of 2026 8 4] have a: "map_of du' ''2026-08-04'' = None"
      by (simp add: august_facts sample_now_facts)
    from kept [rule_format, of 2026 8 5] have b: "map_of du' ''2026-08-05'' = Some (JInt 4)"
      by (simp add: august_facts sample_now_facts)
    from t have c: "field ''total_uses'' config' = JInt 8"
      "field ''last_used_date'' config' = JStr ''2026-11-03''"
      "map_of du' ''2026-11-03'' = Some (JInt 1)"
      by (simp_all add: sample_now_facts)
    show ?thesis
      by (rule exI [of _ config'], rule exI [of _ du']) (intro conjI t(1) c t(4) a b)
  qed
qed

text \<open>
  Outside that range the platform matters. With the year printed without leading zeros,
  a usage event on 1000-02-15 has the cut-off \<open>999-11-17\<close>, which as a string is greater
  than \<open>1000-02-15\<close>: the count just written for today is pruned at once. With the year
  filled to four digits it is kept.
\<close>

lemma track_usage_three_digit_cutoff:
  "field ''daily_usage''
     (step (RecordUsage year_unpadded (sample_now\<lparr>year := 1000, month := 2, day := 15\<rparr>)
              (sample_now\<lparr>year := 1000, month := 2, day := 15\<rparr>)) []) = JDict []
   \<and> field ''daily_usage''
     (step (RecordUsage year_padded (sample_now\<lparr>year := 1000, month := 2, day := 15\<rparr>)
              (sample_now\<lparr>year := 1000, month := 2, day := 15\<rparr>)) [])
       = JDict [(''1000-02-15'', JInt 1)]"
proof -
  let ?t = "sample_now\<lparr>year := 1000, month := 2, day := 15\<rparr>"
  have d: "minus_days ?t 90 = Inr (sample_now\<lparr>year := 999, month := 11, day := 17\<rparr>)"
    by (simp add: minus_days_def toordinal_def ymd2ord_def days_before_year_def days_before_month_def
        DAYS_BEFORE_MONTH_def DAYS_IN_MONTH_def is_leap_def ord2ymd_def MAXORDINAL_def Let_def
        sample_now_def)
  have s: "strftime_ymd year_unpadded ?t = ''1000-02-15''"
    "strftime_ymd year_padded ?t = ''1000-02-15''"
    by (simp_all add: format_eval sample_now_def)
  have c: "strftime_ymd year_unpadded (sample_now\<lparr>year := 999, month := 11, day := 17\<rparr>) = ''999-11-17''"
    "strftime_ymd year_padded (sample_now\<lparr>year := 999, month := 11, day := 17\<rparr>) = ''0999-11-17''"
    by (simp_all add: format_eval sample_now_def)
  have u: "track_usage year_unpadded ?t ?t [] =
      Inr [(''analytics'', JDict [(''total_uses'', JInt 1), (''daily_usage'', JDict []),
             (''last_used_date'', JStr ''1000-02-15'')])]"
    by (simp add: track_usage_def with_analytics_def get_analytics_data_def dict_get_default_def
        dict_set_def cleanup_old_daily_data_def save_analytics_data_def d s c Let_def)
  have p: "track_usage year_padded ?t ?t [] =
      Inr [(''analytics'', JDict [(''total_uses'', JInt 1),
             (''daily_usage'', JDict [(''1000-02-15'', JInt 1)]),
             (''last_used_date'', JStr ''1000-02-15'')])]"
    by (simp add: track_usage_def with_analytics_def get_analytics_data_def dict_get_default_def
        dict_set_def cleanup_old_daily_data_def save_analytics_data_def d s c Let_def)
  show ?thesis
    by (simp add: step_def u p field_def gad1 dict_get_def)
qed

end
